theory Spec2Isabelle
  imports Complex_Main "HOL-Library.Char_ord" "HOL-Library.List_Lexorder"
begin

section \<open>Values and errors of \<^verbatim>\<open>tools/bench_compare.py\<close>\<close>

text \<open>
  \<^verbatim>\<open>json.load\<close> decodes a document into Python values: \<^verbatim>\<open>None\<close>, \<^verbatim>\<open>bool\<close>,
  \<^verbatim>\<open>int\<close> (unbounded), \<^verbatim>\<open>float\<close>, \<^verbatim>\<open>str\<close>, \<^verbatim>\<open>list\<close> and \<^verbatim>\<open>dict\<close>. The type of
  floats is the parameter \<open>'f\<close>: the script only divides, compares with \<^verbatim>\<open>0.0\<close> and formats
  them, and these operations are taken from a record of operations, so every theorem
  holds for each interpretation of floats. A \<^verbatim>\<open>dict\<close> is an association list in which
  the first binding of a key is its value.
\<close>

datatype 'f json =
    JNull
  | JBool bool
  | JInt int
  | JFloat 'f
  | JStr string
  | JArr "'f json list"
  | JObj "(string \<times> 'f json) list"

text \<open>
  The exceptions the script can raise. Only \<^verbatim>\<open>ValueError\<close> carries its message: it is the
  one the script builds itself. \<open>OSError\<close> and \<open>JSONDecodeError\<close> come from opening and
  decoding a file.
\<close>

datatype py_error =
    ValueError string
  | TypeError
  | AttributeError
  | KeyError
  | OverflowError
  | ZeroDivisionError
  | OSError
  | JSONDecodeError

text \<open>
  A hashable value, as a \<^verbatim>\<open>set\<close> member or \<^verbatim>\<open>dict\<close> key: everything but \<^verbatim>\<open>list\<close> and
  \<^verbatim>\<open>dict\<close>.
\<close>

datatype 'f key = KNone | KBool bool | KInt int | KFloat 'f | KStr string

text \<open>
  The interpreter's operations on floats, and on keys that are not all strings:
  \<^item> \<open>f_zero\<close> is the literal \<^verbatim>\<open>0.0\<close>, \<open>f_is_zero x\<close> is \<^verbatim>\<open>x == 0.0\<close> (a float is falsy
    exactly then), \<open>f_gt_zero x\<close> is \<^verbatim>\<open>x > 0.0\<close>;
  \<^item> \<open>f_of_int n\<close> is \<^verbatim>\<open>float(n)\<close>, \<open>None\<close> when it raises \<^verbatim>\<open>OverflowError\<close>;
  \<^item> \<open>f_div x y\<close> is \<^verbatim>\<open>x / y\<close> for floats with \<^verbatim>\<open>y != 0.0\<close>, \<open>f_int_div m n\<close> is \<^verbatim>\<open>m / n\<close>
    for ints with \<^verbatim>\<open>n != 0\<close>, \<open>None\<close> when it raises \<^verbatim>\<open>OverflowError\<close>;
  \<^item> \<open>f_fixed p x\<close> is \<^verbatim>\<open>format(x, '.pf')\<close> and \<open>f_repr x\<close> is \<^verbatim>\<open>repr(x)\<close>;
  \<^item> \<open>sorted_other ks\<close> is \<^verbatim>\<open>sorted(set(ks))\<close> for keys \<open>ks\<close> (in insertion order) that are
    not all strings, and \<open>key_eq\<close> tells whether two such keys are the same \<^verbatim>\<open>dict\<close> key.
\<close>

record 'f builtins =
  f_zero :: 'f
  f_is_zero :: "'f \<Rightarrow> bool"
  f_gt_zero :: "'f \<Rightarrow> bool"
  f_of_int :: "int \<Rightarrow> 'f option"
  f_div :: "'f \<Rightarrow> 'f \<Rightarrow> 'f"
  f_int_div :: "int \<Rightarrow> int \<Rightarrow> 'f option"
  f_fixed :: "nat \<Rightarrow> 'f \<Rightarrow> string"
  f_repr :: "'f \<Rightarrow> string"
  sorted_other :: "'f key list \<Rightarrow> py_error + 'f key list"
  key_eq :: "'f key \<Rightarrow> 'f key \<Rightarrow> bool"

text \<open>Sequencing of computations that may raise: the first error is the result.\<close>

definition bind_err :: "'e + 'a \<Rightarrow> ('a \<Rightarrow> 'e + 'b) \<Rightarrow> 'e + 'b" where
  "bind_err m f = (case m of Inl e \<Rightarrow> Inl e | Inr x \<Rightarrow> f x)"

section \<open>Strings and format specifications\<close>

text \<open>\<^verbatim>\<open>str(n)\<close> of an \<^verbatim>\<open>int\<close>: its decimal digits, with a minus sign when negative.\<close>

fun digits :: "nat \<Rightarrow> string" where
  "digits n = (if n < 10 then [''0123456789'' ! n]
               else digits (n div 10) @ [''0123456789'' ! (n mod 10)])"

declare digits.simps [simp del]

definition str_int :: "int \<Rightarrow> string" where
  "str_int n = (if n < 0 then CHR ''-'' # digits (nat (- n)) else digits (nat n))"

text \<open>The alignments \<^verbatim>\<open><w\<close> and \<^verbatim>\<open>>w\<close> pad with spaces up to the width and never cut.\<close>

definition ljust :: "nat \<Rightarrow> string \<Rightarrow> string" where
  "ljust w s = s @ replicate (w - length s) (CHR '' '')"

definition rjust :: "nat \<Rightarrow> string \<Rightarrow> string" where
  "rjust w s = replicate (w - length s) (CHR '' '') @ s"

text \<open>
  \<^verbatim>\<open>format(v, '>w.pf')\<close>. An \<^verbatim>\<open>int\<close> (and a \<^verbatim>\<open>bool\<close>, which is an \<^verbatim>\<open>int\<close>) is converted to
  \<^verbatim>\<open>float\<close> first; a \<^verbatim>\<open>str\<close> rejects the code \<^verbatim>\<open>f\<close>; \<^verbatim>\<open>None\<close>, \<^verbatim>\<open>list\<close> and \<^verbatim>\<open>dict\<close> reject
  every non-empty specification.
\<close>

definition unknown_format_code :: string where
  "unknown_format_code = ''Unknown format code 'f' for object of type 'str'' @ [CHR 0x27]"

definition fixed_of_int :: "'f builtins \<Rightarrow> nat \<Rightarrow> nat \<Rightarrow> int \<Rightarrow> py_error + string" where
  "fixed_of_int ops w p n =
     (case f_of_int ops n of
        None \<Rightarrow> Inl OverflowError
      | Some x \<Rightarrow> Inr (rjust w (f_fixed ops p x)))"

fun format_fixed :: "'f builtins \<Rightarrow> nat \<Rightarrow> nat \<Rightarrow> 'f json \<Rightarrow> py_error + string" where
  "format_fixed ops w p (JFloat x) = Inr (rjust w (f_fixed ops p x))"
| "format_fixed ops w p (JInt n) = fixed_of_int ops w p n"
| "format_fixed ops w p (JBool b) = fixed_of_int ops w p (if b then 1 else 0)"
| "format_fixed ops w p (JStr s) = Inl (ValueError unknown_format_code)"
| "format_fixed ops w p JNull = Inl TypeError"
| "format_fixed ops w p (JArr xs) = Inl TypeError"
| "format_fixed ops w p (JObj d) = Inl TypeError"

text \<open>
  \<^verbatim>\<open>format(v, '>w')\<close>, with no presentation type: an \<^verbatim>\<open>int\<close> in decimal (a \<^verbatim>\<open>bool\<close> as
  \<^verbatim>\<open>1\<close> or \<^verbatim>\<open>0\<close>), a \<^verbatim>\<open>float\<close> as its \<^verbatim>\<open>repr\<close>, a \<^verbatim>\<open>str\<close> as it is.
\<close>

fun format_plain :: "'f builtins \<Rightarrow> nat \<Rightarrow> 'f json \<Rightarrow> py_error + string" where
  "format_plain ops w (JInt n) = Inr (rjust w (str_int n))"
| "format_plain ops w (JBool b) = Inr (rjust w (if b then ''1'' else ''0''))"
| "format_plain ops w (JFloat x) = Inr (rjust w (f_repr ops x))"
| "format_plain ops w (JStr s) = Inr (rjust w s)"
| "format_plain ops w JNull = Inl TypeError"
| "format_plain ops w (JArr xs) = Inl TypeError"
| "format_plain ops w (JObj d) = Inl TypeError"

section \<open>\<^verbatim>\<open>dict.get\<close> and \<^verbatim>\<open>format_row\<close>\<close>

text \<open>
  \<^verbatim>\<open>item.get(k, dflt)\<close>: defined on a \<^verbatim>\<open>dict\<close> only; on any other decoded value the
  attribute lookup raises \<^verbatim>\<open>AttributeError\<close>.
\<close>

definition dict_get :: "(string \<times> 'f json) list \<Rightarrow> string \<Rightarrow> 'f json \<Rightarrow> 'f json" where
  "dict_get d k dflt = (case map_of d k of None \<Rightarrow> dflt | Some v \<Rightarrow> v)"

fun get :: "'f json \<Rightarrow> string \<Rightarrow> 'f json \<Rightarrow> py_error + 'f json" where
  "get (JObj d) k dflt = Inr (dict_get d k dflt)"
| "get v k dflt = Inl AttributeError"

text \<open>
  \<^verbatim>\<open>
  def format_row(label, target, item):
      ns_per_iter = item.get("ns_per_iter", 0.0)
      total_secs = item.get("total_secs", 0.0)
      iters = item.get("iters", 0)
      return f"{label:<10} {target:<10} {ns_per_iter:>12.3f} {total_secs:>12.6f} {iters:>10}"
  \<close>
  The label and the target are the strings of the fixed comparison order.
\<close>

definition format_row :: "'f builtins \<Rightarrow> string \<Rightarrow> string \<Rightarrow> 'f json \<Rightarrow> py_error + string" where
  "format_row ops label target item =
     bind_err (get item ''ns_per_iter'' (JFloat (f_zero ops))) (\<lambda>ns_per_iter.
     bind_err (get item ''total_secs'' (JFloat (f_zero ops))) (\<lambda>total_secs.
     bind_err (get item ''iters'' (JInt 0)) (\<lambda>iters.
     bind_err (format_fixed ops 12 3 ns_per_iter) (\<lambda>c3.
     bind_err (format_fixed ops 12 6 total_secs) (\<lambda>c4.
     bind_err (format_plain ops 10 iters) (\<lambda>c5.
       Inr (ljust 10 label @ '' '' @ ljust 10 target @ '' '' @ c3 @ '' '' @ c4 @ '' '' @ c5)))))))"

section \<open>Truth values, comparison and division\<close>

text \<open>The truth value of a decoded value, as \<^verbatim>\<open>if item\<close> and \<^verbatim>\<open>or\<close> test it.\<close>

fun truthy :: "'f builtins \<Rightarrow> 'f json \<Rightarrow> bool" where
  "truthy ops JNull = False"
| "truthy ops (JBool b) = b"
| "truthy ops (JInt n) = (n \<noteq> 0)"
| "truthy ops (JFloat x) = (\<not> f_is_zero ops x)"
| "truthy ops (JStr s) = (s \<noteq> [])"
| "truthy ops (JArr xs) = (xs \<noteq> [])"
| "truthy ops (JObj d) = (d \<noteq> [])"

definition py_or :: "'f builtins \<Rightarrow> 'f json \<Rightarrow> 'f json \<Rightarrow> 'f json" where
  "py_or ops a b = (if truthy ops a then a else b)"

text \<open>
  \<^verbatim>\<open>v > 0.0\<close>: an \<^verbatim>\<open>int\<close> is compared exactly, and any value that is not a number raises
  \<^verbatim>\<open>TypeError\<close>.
\<close>

fun py_gt_zero :: "'f builtins \<Rightarrow> 'f json \<Rightarrow> py_error + bool" where
  "py_gt_zero ops (JFloat x) = Inr (f_gt_zero ops x)"
| "py_gt_zero ops (JInt n) = Inr (0 < n)"
| "py_gt_zero ops (JBool b) = Inr b"
| "py_gt_zero ops v = Inl TypeError"

fun as_int :: "'f json \<Rightarrow> int option" where
  "as_int (JInt n) = Some n"
| "as_int (JBool b) = Some (if b then 1 else 0)"
| "as_int v = None"

fun to_float :: "'f builtins \<Rightarrow> 'f json \<Rightarrow> py_error + 'f" where
  "to_float ops (JFloat x) = Inr x"
| "to_float ops v =
     (case as_int v of
        None \<Rightarrow> Inl TypeError
      | Some n \<Rightarrow> (case f_of_int ops n of None \<Rightarrow> Inl OverflowError | Some x \<Rightarrow> Inr x))"

fun is_number :: "'f json \<Rightarrow> bool" where
  "is_number (JFloat x) = True"
| "is_number (JInt n) = True"
| "is_number (JBool b) = True"
| "is_number v = False"

text \<open>
  \<^verbatim>\<open>a / b\<close>, true division. Two \<^verbatim>\<open>int\<close>s are divided as integers; otherwise both operands
  are converted to \<^verbatim>\<open>float\<close>, the left one first, and a zero divisor raises.
\<close>

definition py_truediv :: "'f builtins \<Rightarrow> 'f json \<Rightarrow> 'f json \<Rightarrow> py_error + 'f" where
  "py_truediv ops a b =
     (if \<not> (is_number a \<and> is_number b) then Inl TypeError
      else case (as_int a, as_int b) of
        (Some m, Some n) \<Rightarrow>
          (if n = 0 then Inl ZeroDivisionError
           else case f_int_div ops m n of None \<Rightarrow> Inl OverflowError | Some r \<Rightarrow> Inr r)
      | _ \<Rightarrow>
          bind_err (to_float ops a) (\<lambda>x.
          bind_err (to_float ops b) (\<lambda>y.
            if f_is_zero ops y then Inl ZeroDivisionError else Inr (f_div ops x y))))"

section \<open>Loading\<close>

text \<open>
  A path is the \<^verbatim>\<open>Path\<close> object the script builds from an argument, given by its string
  form. The file system is the result of opening a path and decoding its contents:
  an error of \<^verbatim>\<open>open\<close> or of \<^verbatim>\<open>json.load\<close>, or the decoded document.
  \<^verbatim>\<open>
  def load_file(path: Path):
      with path.open("r", encoding="utf-8") as f:
          data = json.load(f)
      if not isinstance(data, list):
          raise ValueError(f"{path} is not a JSON array")
      return data
  \<close>
\<close>

type_synonym path = string

type_synonym 'f files = "path \<Rightarrow> py_error + 'f json"

definition load_file :: "'f files \<Rightarrow> path \<Rightarrow> py_error + 'f json list" where
  "load_file fs path =
     bind_err (fs path) (\<lambda>data.
       case data of
         JArr xs \<Rightarrow> Inr xs
       | _ \<Rightarrow> Inl (ValueError (path @ '' is not a JSON array'')))"

text \<open>\<^verbatim>\<open>for path in paths: items.extend(load_file(path))\<close>, from the items so far.\<close>

fun load_all :: "'f files \<Rightarrow> path list \<Rightarrow> 'f json list \<Rightarrow> py_error + 'f json list" where
  "load_all fs [] items = Inr items"
| "load_all fs (path # paths) items =
     bind_err (load_file fs path) (\<lambda>xs. load_all fs paths (items @ xs))"

section \<open>Grouping by scenario\<close>

fun hashable :: "'f json \<Rightarrow> py_error + 'f key" where
  "hashable JNull = Inr KNone"
| "hashable (JBool b) = Inr (KBool b)"
| "hashable (JInt n) = Inr (KInt n)"
| "hashable (JFloat x) = Inr (KFloat x)"
| "hashable (JStr s) = Inr (KStr s)"
| "hashable (JArr xs) = Inl TypeError"
| "hashable (JObj d) = Inl TypeError"

text \<open>\<^verbatim>\<open>item.get("scenario", "")\<close>, as a set member or a key of \<^verbatim>\<open>by_scenario\<close>.\<close>

definition scenario_of :: "'f json \<Rightarrow> py_error + 'f key" where
  "scenario_of item = bind_err (get item ''scenario'' (JStr [])) hashable"

text \<open>The set comprehension visits the items in order and stops at the first error.\<close>

fun scenario_keys :: "'f json list \<Rightarrow> py_error + 'f key list" where
  "scenario_keys [] = Inr []"
| "scenario_keys (item # items) =
     bind_err (scenario_of item) (\<lambda>k.
     bind_err (scenario_keys items) (\<lambda>ks. Inr (k # ks)))"

fun str_keys :: "'f key list \<Rightarrow> string list option" where
  "str_keys [] = Some []"
| "str_keys (KStr s # ks) = (case str_keys ks of None \<Rightarrow> None | Some ss \<Rightarrow> Some (s # ss))"
| "str_keys (k # ks) = None"

text \<open>
  \<^verbatim>\<open>sorted({...})\<close>: strings are compared lexicographically, character by character;
  for other keys the interpreter's operation decides.
\<close>

definition sorted_set :: "'f builtins \<Rightarrow> 'f key list \<Rightarrow> py_error + 'f key list" where
  "sorted_set ops ks =
     (case str_keys ks of
        Some ss \<Rightarrow> Inr (map KStr (sort (remdups ss)))
      | None \<Rightarrow> sorted_other ops ks)"

fun key_str :: "'f key \<Rightarrow> string option" where
  "key_str (KStr s) = Some s"
| "key_str k = None"

definition same_key :: "'f builtins \<Rightarrow> 'f key \<Rightarrow> 'f key \<Rightarrow> bool" where
  "same_key ops k k' =
     (case (key_str k, key_str k') of
        (Some s, Some t) \<Rightarrow> s = t
      | (None, None) \<Rightarrow> key_eq ops k k'
      | _ \<Rightarrow> False)"

text \<open>
  \<^verbatim>\<open>by_scenario[k].append(item)\<close>: \<^verbatim>\<open>by_scenario\<close> is the list of its keys with their
  groups, in the order of \<^verbatim>\<open>scenarios\<close>; a key that is not there raises \<^verbatim>\<open>KeyError\<close>.
\<close>

type_synonym 'f groups = "('f key \<times> 'f json list) list"

fun append_to :: "'f builtins \<Rightarrow> 'f key \<Rightarrow> 'f json \<Rightarrow> 'f groups \<Rightarrow> py_error + 'f groups" where
  "append_to ops k item [] = Inl KeyError"
| "append_to ops k item ((k', es) # rest) =
     (if same_key ops k' k then Inr ((k', es @ [item]) # rest)
      else bind_err (append_to ops k item rest) (\<lambda>rest'. Inr ((k', es) # rest')))"

fun group_items :: "'f builtins \<Rightarrow> 'f json list \<Rightarrow> 'f groups \<Rightarrow> py_error + 'f groups" where
  "group_items ops [] by_scenario = Inr by_scenario"
| "group_items ops (item # items) by_scenario =
     bind_err (scenario_of item) (\<lambda>k.
     bind_err (append_to ops k item by_scenario) (group_items ops items))"

text \<open>\<^verbatim>\<open>by_scenario.get(scenario, [])\<close>.\<close>

fun entries_of :: "'f builtins \<Rightarrow> 'f groups \<Rightarrow> 'f key \<Rightarrow> 'f json list" where
  "entries_of ops [] k = []"
| "entries_of ops ((k', es) # rest) k = (if same_key ops k' k then es else entries_of ops rest k)"

section \<open>The report\<close>

text \<open>
  What a computation has printed on standard output, line by line, with its result:
  an error stops it and keeps the lines printed before.
\<close>

type_synonym 'a io = "string list \<times> (py_error + 'a)"

definition print_line :: "string \<Rightarrow> unit io" where
  "print_line s = ([s], Inr ())"

definition done_io :: "unit io" where
  "done_io = ([], Inr ())"

definition lift_io :: "py_error + 'a \<Rightarrow> 'a io" where
  "lift_io m = ([], m)"

definition bind_io :: "'a io \<Rightarrow> ('a \<Rightarrow> 'b io) \<Rightarrow> 'b io" where
  "bind_io m f =
     (case m of
        (out, Inl e) \<Rightarrow> (out, Inl e)
      | (out, Inr x) \<Rightarrow> (case f x of (out', r) \<Rightarrow> (out @ out', r)))"

text \<open>
  \<^verbatim>\<open>lookup = {(e.get("impl"), e.get("target")): e for e in entries}\<close>: a later entry
  replaces an earlier one with the same key. The script asks this dictionary for pairs
  of strings only, and a pair of strings is equal to no other key.
\<close>

type_synonym 'f lookup = "('f key \<times> 'f key) \<rightharpoonup> 'f json"

definition lookup_key :: "'f json \<Rightarrow> py_error + ('f key \<times> 'f key)" where
  "lookup_key e =
     bind_err (get e ''impl'' JNull) (\<lambda>i.
     bind_err (get e ''target'' JNull) (\<lambda>t.
     bind_err (hashable i) (\<lambda>ki.
     bind_err (hashable t) (\<lambda>kt. Inr (ki, kt)))))"

fun build_lookup :: "'f json list \<Rightarrow> 'f lookup \<Rightarrow> py_error + 'f lookup" where
  "build_lookup [] lookup = Inr lookup"
| "build_lookup (e # es) lookup =
     bind_err (lookup_key e) (\<lambda>k. build_lookup es (lookup(k \<mapsto> e)))"

definition order :: "(string \<times> string) list" where
  "order = [(''rust'', ''rust''), (''moonbit'', ''native''), (''moonbit'', ''wasm-gc'')]"

text \<open>
  \<^verbatim>\<open>
  for impl_name, target in order:
      item = lookup.get((impl_name, target))
      if item:
          print(format_row(impl_name, target, item))
  \<close>
\<close>

fun print_rows :: "'f builtins \<Rightarrow> 'f lookup \<Rightarrow> (string \<times> string) list \<Rightarrow> unit io" where
  "print_rows ops lookup [] = done_io"
| "print_rows ops lookup ((impl_name, target) # rest) =
     bind_io
       (case lookup (KStr impl_name, KStr target) of
          None \<Rightarrow> done_io
        | Some item \<Rightarrow>
            if truthy ops item
            then bind_io (lift_io (format_row ops impl_name target item)) print_line
            else done_io)
       (\<lambda>_. print_rows ops lookup rest)"

text \<open>
  \<^verbatim>\<open>
  item = lookup.get((impl_name, target))
  if item and rust_ns > 0.0:
      ratio = item.get("ns_per_iter", 0.0) / rust_ns
      print(f"ratio vs rust ({impl_name}/{target}): {ratio:.3f}x")
  \<close>
\<close>

definition ratio_line :: "'f builtins \<Rightarrow> string \<Rightarrow> string \<Rightarrow> 'f \<Rightarrow> string" where
  "ratio_line ops impl_name target ratio =
     ''ratio vs rust ('' @ impl_name @ ''/'' @ target @ ''): '' @ f_fixed ops 3 ratio @ ''x''"

definition print_ratio :: "'f builtins \<Rightarrow> 'f lookup \<Rightarrow> 'f json \<Rightarrow> string \<Rightarrow> string \<Rightarrow> unit io" where
  "print_ratio ops lookup rust_ns impl_name target =
     (case lookup (KStr impl_name, KStr target) of
        None \<Rightarrow> done_io
      | Some item \<Rightarrow>
          if \<not> truthy ops item then done_io
          else bind_io (lift_io (py_gt_zero ops rust_ns)) (\<lambda>positive.
            if \<not> positive then done_io
            else bind_io
              (lift_io (bind_err (get item ''ns_per_iter'' (JFloat (f_zero ops)))
                 (\<lambda>ns. py_truediv ops ns rust_ns)))
              (\<lambda>ratio. print_line (ratio_line ops impl_name target ratio))))"

text \<open>
  \<^verbatim>\<open>
  for impl_name, target in order:
      if impl_name == "rust":
          continue
      ...
  \<close>
\<close>

fun print_ratios :: "'f builtins \<Rightarrow> 'f lookup \<Rightarrow> 'f json \<Rightarrow> (string \<times> string) list \<Rightarrow> unit io" where
  "print_ratios ops lookup rust_ns [] = done_io"
| "print_ratios ops lookup rust_ns ((impl_name, target) # rest) =
     bind_io
       (if impl_name = ''rust'' then done_io
        else print_ratio ops lookup rust_ns impl_name target)
       (\<lambda>_. print_ratios ops lookup rust_ns rest)"

text \<open>
  \<^verbatim>\<open>
  rust_item = lookup.get(("rust", "rust"))
  if rust_item:
      rust_ns = rust_item.get("ns_per_iter", 0.0) or 0.0
      for impl_name, target in order: ...
  \<close>
\<close>

definition ratio_block :: "'f builtins \<Rightarrow> 'f lookup \<Rightarrow> unit io" where
  "ratio_block ops lookup =
     (case lookup (KStr ''rust'', KStr ''rust'') of
        None \<Rightarrow> done_io
      | Some rust_item \<Rightarrow>
          if \<not> truthy ops rust_item then done_io
          else bind_io (lift_io (get rust_item ''ns_per_iter'' (JFloat (f_zero ops)))) (\<lambda>v.
            print_ratios ops lookup (py_or ops v (JFloat (f_zero ops))) order))"

text \<open>\<^verbatim>\<open>str(scenario)\<close>, as the section header interpolates it.\<close>

fun str_key :: "'f builtins \<Rightarrow> 'f key \<Rightarrow> string" where
  "str_key ops (KStr s) = s"
| "str_key ops KNone = ''None''"
| "str_key ops (KBool b) = (if b then ''True'' else ''False'')"
| "str_key ops (KInt n) = str_int n"
| "str_key ops (KFloat x) = f_repr ops x"

definition column_header :: string where
  "column_header =
     ljust 10 ''impl'' @ '' '' @ ljust 10 ''target'' @ '' '' @ rjust 12 ''ns/iter'' @ '' ''
       @ rjust 12 ''secs'' @ '' '' @ rjust 10 ''iters''"

text \<open>The body of \<^verbatim>\<open>for scenario in scenarios\<close>.\<close>

definition report_scenario :: "'f builtins \<Rightarrow> 'f groups \<Rightarrow> 'f key \<Rightarrow> unit io" where
  "report_scenario ops by_scenario scenario =
     bind_io (print_line (''== '' @ str_key ops scenario)) (\<lambda>_.
     bind_io (print_line column_header) (\<lambda>_.
     bind_io (lift_io (build_lookup (entries_of ops by_scenario scenario) Map.empty)) (\<lambda>lookup.
     bind_io (print_rows ops lookup order) (\<lambda>_.
     bind_io (ratio_block ops lookup) (\<lambda>_.
     print_line [])))))"

fun report :: "'f builtins \<Rightarrow> 'f groups \<Rightarrow> 'f key list \<Rightarrow> unit io" where
  "report ops by_scenario [] = done_io"
| "report ops by_scenario (scenario # scenarios) =
     bind_io (report_scenario ops by_scenario scenario) (\<lambda>_. report ops by_scenario scenarios)"

text \<open>
  \<^verbatim>\<open>main\<close>, on the paths of the command line: it returns \<^verbatim>\<open>2\<close> after the usage line and
  \<^verbatim>\<open>None\<close> after the report. \<^verbatim>\<open>raise SystemExit(main())\<close> turns the result into the exit
  status: \<^verbatim>\<open>None\<close> is 0, and an exception that leaves \<^verbatim>\<open>main\<close> ends the run with status 1.
\<close>

definition main :: "'f builtins \<Rightarrow> 'f files \<Rightarrow> path list \<Rightarrow> int option io" where
  "main ops fs paths =
     (if paths = [] then
        bind_io (print_line ''usage: bench_compare.py <json...>'') (\<lambda>_. ([], Inr (Some 2)))
      else
        bind_io (lift_io (load_all fs paths [])) (\<lambda>items.
        bind_io (lift_io (bind_err (scenario_keys items) (sorted_set ops))) (\<lambda>scenarios.
        bind_io (lift_io (group_items ops items (map (\<lambda>scenario. (scenario, [])) scenarios)))
          (\<lambda>by_scenario.
        bind_io (report ops by_scenario scenarios) (\<lambda>_. ([], Inr None))))))"

definition exit_status :: "int option io \<Rightarrow> int" where
  "exit_status r = (case snd r of Inl e \<Rightarrow> 1 | Inr None \<Rightarrow> 0 | Inr (Some n) \<Rightarrow> n)"

section \<open>An interpretation of floats by exact rationals\<close>

text \<open>
  To run the definitions on examples, floats are read as rationals: division is exact,
  there is no overflow, infinity or NaN, \<^verbatim>\<open>.pf\<close> rounds to \<open>p\<close> decimals (a tie to the even
  digit), and \<^verbatim>\<open>repr\<close> writes the shortest decimal expansion with at least one and at
  most 17 decimals. Numeric keys are equal when their values are, and sort by value.
\<close>

definition rat_fixed :: "nat \<Rightarrow> rat \<Rightarrow> string" where
  "rat_fixed p x =
     (let r = \<bar>x\<bar> * 10 ^ p;
          f = \<lfloor>r\<rfloor>;
          d = r - of_int f;
          n = nat (if d < 1 / 2 then f else if 1 / 2 < d then f + 1
                   else if even f then f else f + 1);
          frac_digits = digits (n mod 10 ^ p)
      in (if x < 0 then ''-'' else []) @ digits (n div 10 ^ p)
         @ (if p = 0 then []
            else ''.'' @ replicate (p - length frac_digits) (CHR ''0'') @ frac_digits))"

fun repr_prec :: "nat \<Rightarrow> nat \<Rightarrow> rat \<Rightarrow> nat" where
  "repr_prec 0 p x = p"
| "repr_prec (Suc fuel) p x =
     (if of_int \<lfloor>x * 10 ^ p\<rfloor> = x * 10 ^ p then p else repr_prec fuel (Suc p) x)"

definition rat_repr :: "rat \<Rightarrow> string" where
  "rat_repr x = rat_fixed (repr_prec 16 1 x) x"

fun key_value :: "rat key \<Rightarrow> rat option" where
  "key_value (KBool b) = Some (if b then 1 else 0)"
| "key_value (KInt n) = Some (of_int n)"
| "key_value (KFloat x) = Some x"
| "key_value k = None"

definition rat_key_eq :: "rat key \<Rightarrow> rat key \<Rightarrow> bool" where
  "rat_key_eq k k' =
     (case (key_value k, key_value k') of
        (Some a, Some b) \<Rightarrow> a = b
      | (None, None) \<Rightarrow> k = k'
      | _ \<Rightarrow> False)"

definition rat_sorted_other :: "rat key list \<Rightarrow> py_error + rat key list" where
  "rat_sorted_other ks =
     (let members = fold (\<lambda>k acc. if list_ex (\<lambda>k'. rat_key_eq k' k) acc then acc else acc @ [k]) ks []
      in if length members \<le> 1 then Inr members
         else if list_ex (\<lambda>k. key_value k = None) members then Inl TypeError
         else Inr (sort_key (\<lambda>k. case key_value k of None \<Rightarrow> 0 | Some a \<Rightarrow> a) members))"

definition rat_ops :: "rat builtins" where
  "rat_ops =
     \<lparr> f_zero = 0,
       f_is_zero = (\<lambda>x. x = 0),
       f_gt_zero = (\<lambda>x. 0 < x),
       f_of_int = (\<lambda>n. Some (of_int n)),
       f_div = (\<lambda>x y. x / y),
       f_int_div = (\<lambda>m n. Some (of_int m / of_int n)),
       f_fixed = rat_fixed,
       f_repr = rat_repr,
       sorted_other = rat_sorted_other,
       key_eq = rat_key_eq \<rparr>"

text \<open>
  The example of the specification: one file with a \<^verbatim>\<open>rust\<close> and a \<^verbatim>\<open>moonbit/native\<close> record
  of scenario \<^verbatim>\<open>s1\<close>.
\<close>

definition example_rust :: "rat json" where
  "example_rust =
     JObj [(''scenario'', JStr ''s1''), (''impl'', JStr ''rust''), (''target'', JStr ''rust''),
           (''ns_per_iter'', JFloat 10), (''total_secs'', JFloat (1 / 100000)),
           (''iters'', JInt 1000)]"

definition example_moonbit :: "rat json" where
  "example_moonbit =
     JObj [(''scenario'', JStr ''s1''), (''impl'', JStr ''moonbit''), (''target'', JStr ''native''),
           (''ns_per_iter'', JFloat 20), (''total_secs'', JFloat (2 / 100000)),
           (''iters'', JInt 1000)]"

definition example_rerun :: "rat json" where
  "example_rerun =
     JObj [(''impl'', JStr ''rust''), (''target'', JStr ''rust''), (''scenario'', JStr ''s1''),
           (''ns_per_iter'', JInt 30), (''host'', JStr ''ci'')]"

definition example_files :: "rat files" where
  "example_files path =
     (if path = ''a.json'' then Inr (JArr [example_rust, example_moonbit])
      else if path = ''b.json'' then Inr (JArr [])
      else if path = ''obj.json'' then Inr (JObj [])
      else if path = ''c.json'' then Inr (JArr [example_rerun])
      else if path = ''nums.json'' then Inr (JArr [JInt 1])
      else Inl OSError)"

definition example_reordered :: "rat json" where
  "example_reordered =
     JObj [(''iters'', JInt 1000), (''total_secs'', JFloat (1 / 100000)),
           (''ns_per_iter'', JFloat 10), (''host'', JStr ''ci'')]"

text \<open>
  A second example: one file whose records belong to three scenarios, one of them
  having no \<^verbatim>\<open>scenario\<close> field.
\<close>

definition example_mixed :: "rat json list" where
  "example_mixed =
     [JObj [(''scenario'', JStr ''zeta''), (''impl'', JStr ''rust'')],
      JObj [(''impl'', JStr ''moonbit'')],
      JObj [(''scenario'', JStr ''alpha'')],
      JObj [(''scenario'', JStr ''zeta''), (''impl'', JStr ''moonbit'')]]"

definition example_mixed_files :: "rat files" where
  "example_mixed_files path =
     (if path = ''m.json'' then Inr (JArr example_mixed) else Inl OSError)"

section \<open>The data model of the specification\<close>

text \<open>
  A Benchmark Record is an object whose fields \<^verbatim>\<open>scenario\<close>, \<^verbatim>\<open>impl\<close> and \<^verbatim>\<open>target\<close> are
  strings, \<^verbatim>\<open>ns_per_iter\<close> and \<^verbatim>\<open>total_secs\<close> floats and \<^verbatim>\<open>iters\<close> an integer; each of
  them may be absent, and other fields are not looked at.
\<close>

fun is_str :: "'f json \<Rightarrow> bool" where
  "is_str (JStr s) = True"
| "is_str v = False"

fun is_float :: "'f json \<Rightarrow> bool" where
  "is_float (JFloat x) = True"
| "is_float v = False"

fun is_int :: "'f json \<Rightarrow> bool" where
  "is_int (JInt n) = True"
| "is_int v = False"

definition absent_or :: "('f json \<Rightarrow> bool) \<Rightarrow> (string \<times> 'f json) list \<Rightarrow> string \<Rightarrow> bool" where
  "absent_or P d k = (case map_of d k of None \<Rightarrow> True | Some v \<Rightarrow> P v)"

fun bench_record :: "'f json \<Rightarrow> bool" where
  "bench_record (JObj d) =
     (absent_or is_str d ''scenario'' \<and> absent_or is_str d ''impl''
      \<and> absent_or is_str d ''target'' \<and> absent_or is_float d ''ns_per_iter''
      \<and> absent_or is_float d ''total_secs'' \<and> absent_or is_int d ''iters'')"
| "bench_record v = False"

text \<open>The scenario a record is reported under: the empty string when it has none.\<close>

fun scenario_name :: "'f json \<Rightarrow> string" where
  "scenario_name (JObj d) = (case map_of d ''scenario'' of Some (JStr s) \<Rightarrow> s | _ \<Rightarrow> [])"
| "scenario_name v = []"

text \<open>
  What the theorems on ratios ask of the float operations: \<^verbatim>\<open>0.0 > 0.0\<close> is false, and a
  float equal to \<^verbatim>\<open>0.0\<close> is not greater than \<^verbatim>\<open>0.0\<close>.
\<close>

definition float_sane :: "'f builtins \<Rightarrow> bool" where
  "float_sane ops =
     (\<not> f_gt_zero ops (f_zero ops) \<and> (\<forall>x. f_is_zero ops x \<longrightarrow> \<not> f_gt_zero ops x))"

section \<open>The report the specification describes\<close>

text \<open>
  The run the theorems on the whole program are about: the float operations are sane,
  every loaded element is an object whose \<^verbatim>\<open>scenario\<close> is a string or absent, whose
  \<^verbatim>\<open>impl\<close> and \<^verbatim>\<open>target\<close> are hashable, whose \<^verbatim>\<open>ns_per_iter\<close> and \<^verbatim>\<open>total_secs\<close> are numbers
  (a float, or an integer that converts to one) and whose \<^verbatim>\<open>iters\<close> can be formatted,
  each of them possibly absent; and no division of two \<^verbatim>\<open>ns_per_iter\<close> overflows.
\<close>

definition ns_per_iter_of :: "'f builtins \<Rightarrow> 'f json \<Rightarrow> 'f json" where
  "ns_per_iter_of ops item =
     (case item of
        JObj d \<Rightarrow> dict_get d ''ns_per_iter'' (JFloat (f_zero ops))
      | _ \<Rightarrow> JFloat (f_zero ops))"

fun record_ok :: "'f builtins \<Rightarrow> 'f json \<Rightarrow> bool" where
  "record_ok ops (JObj d) =
     (absent_or is_str d ''scenario''
      \<and> \<not> isl (hashable (dict_get d ''impl'' JNull))
      \<and> \<not> isl (hashable (dict_get d ''target'' JNull))
      \<and> \<not> isl (to_float ops (dict_get d ''ns_per_iter'' (JFloat (f_zero ops))))
      \<and> \<not> isl (to_float ops (dict_get d ''total_secs'' (JFloat (f_zero ops))))
      \<and> \<not> isl (format_plain ops 10 (dict_get d ''iters'' (JInt 0))))"
| "record_ok ops v = False"

definition ratios_ok :: "'f builtins \<Rightarrow> 'f json list \<Rightarrow> bool" where
  "ratios_ok ops items =
     (\<forall>a \<in> set items. \<forall>b \<in> set items.
        py_gt_zero ops (ns_per_iter_of ops b) = Inr True \<longrightarrow>
        \<not> isl (py_truediv ops (ns_per_iter_of ops a) (ns_per_iter_of ops b)))"

definition valid_run :: "'f builtins \<Rightarrow> 'f json list \<Rightarrow> bool" where
  "valid_run ops items =
     (float_sane ops \<and> (\<forall>item \<in> set items. record_ok ops item) \<and> ratios_ok ops items)"

text \<open>
  The report as the specification words it, independently of the functions of the
  script: the sections are the distinct scenario names in lexicographic order; a section
  is its header, the column header, the rows, the ratio lines and an empty line; the
  entries of a section are the records of its scenario in load order; the record of a
  pair \<^verbatim>\<open>(impl, target)\<close> is the last entry with that pair.
\<close>

definition scenario_names :: "'f json list \<Rightarrow> string list" where
  "scenario_names items = sort (remdups (map scenario_name items))"

definition section_entries :: "'f json list \<Rightarrow> string \<Rightarrow> 'f json list" where
  "section_entries items n = filter (\<lambda>item. scenario_name item = n) items"

fun has_pair :: "string \<Rightarrow> string \<Rightarrow> 'f json \<Rightarrow> bool" where
  "has_pair i t (JObj d) = (map_of d ''impl'' = Some (JStr i) \<and> map_of d ''target'' = Some (JStr t))"
| "has_pair i t v = False"

definition last_with :: "'f json list \<Rightarrow> string \<Rightarrow> string \<Rightarrow> 'f json option" where
  "last_with entries i t =
     (case filter (has_pair i t) entries of [] \<Rightarrow> None | x # xs \<Rightarrow> Some (last (x # xs)))"

definition row_text :: "'f builtins \<Rightarrow> string \<Rightarrow> string \<Rightarrow> 'f json \<Rightarrow> string" where
  "row_text ops i t item = (case format_row ops i t item of Inr row \<Rightarrow> row | Inl e \<Rightarrow> [])"

definition expected_rows :: "'f builtins \<Rightarrow> 'f json list \<Rightarrow> string list" where
  "expected_rows ops entries =
     concat (map (\<lambda>(i, t). case last_with entries i t of
                               None \<Rightarrow> []
                             | Some item \<Rightarrow> [row_text ops i t item])
       [(''rust'', ''rust''), (''moonbit'', ''native''), (''moonbit'', ''wasm-gc'')])"

definition expected_ratios :: "'f builtins \<Rightarrow> 'f json list \<Rightarrow> string list" where
  "expected_ratios ops entries =
     (case last_with entries ''rust'' ''rust'' of
        None \<Rightarrow> []
      | Some ref \<Rightarrow>
          if py_gt_zero ops (ns_per_iter_of ops ref) = Inr True
          then concat (map (\<lambda>(i, t).
                 case last_with entries i t of
                   None \<Rightarrow> []
                 | Some item \<Rightarrow>
                     (case py_truediv ops (ns_per_iter_of ops item) (ns_per_iter_of ops ref) of
                        Inr ratio \<Rightarrow>
                          [''ratio vs rust ('' @ i @ ''/'' @ t @ ''): '' @ f_fixed ops 3 ratio @ ''x'']
                      | Inl e \<Rightarrow> []))
               [(''moonbit'', ''native''), (''moonbit'', ''wasm-gc'')])
          else [])"

definition expected_section :: "'f builtins \<Rightarrow> 'f json list \<Rightarrow> string \<Rightarrow> string list" where
  "expected_section ops items n =
     [''== '' @ n, ''impl       target          ns/iter         secs      iters'']
       @ expected_rows ops (section_entries items n)
       @ expected_ratios ops (section_entries items n) @ [[]]"

definition expected_report :: "'f builtins \<Rightarrow> 'f json list \<Rightarrow> string list" where
  "expected_report ops items = concat (map (expected_section ops items) (scenario_names items))"

section \<open>Basic facts\<close>

lemma bind_err_Inl [simp]: "bind_err (Inl e) f = Inl e"
  by (simp add: bind_err_def)

lemma bind_err_Inr [simp]: "bind_err (Inr x) f = f x"
  by (simp add: bind_err_def)

lemma bind_io_error [simp]: "bind_io (out, Inl e) f = (out, Inl e)"
  by (simp add: bind_io_def)

lemma bind_io_value [simp]: "bind_io (out, Inr x) f = (out @ fst (f x), snd (f x))"
  by (simp add: bind_io_def split: prod.splits)

lemma load_all_append:
  "load_all fs (ps @ qs) items = bind_err (load_all fs ps items) (load_all fs qs)"
proof (induction ps arbitrary: items)
  case Nil
  show ?case by simp
next
  case (Cons p ps)
  show ?case
  proof (cases "load_file fs p")
    case (Inl e)
    then show ?thesis by simp
  next
    case (Inr xs)
    then show ?thesis by (simp add: Cons.IH)
  qed
qed

lemma load_file_not_array:
  assumes "fs p = Inr d" and "\<forall>xs. d \<noteq> JArr xs"
  shows "load_file fs p = Inl (ValueError (p @ '' is not a JSON array''))"
  using assms by (cases d) (simp_all add: load_file_def)

lemma example_load_a:
  "load_all example_files [''a.json''] [] = Inr [example_rust, example_moonbit]"
  by (simp add: load_file_def example_files_def)

section \<open>The claims\<close>

text \<open>
  C3. When the document of a path is not an array, \<open>load_file\<close> raises \<^verbatim>\<open>ValueError\<close> with
  the message \<^verbatim>\<open><path> is not a JSON array\<close>, and the run stops there: whatever paths
  before it were loaded and whatever paths follow, \<open>main\<close> has printed nothing, its result
  is that error, and the exit status is 1.
\<close>

theorem non_array_aborts_run:
  assumes "load_all fs ps [] = Inr items"
    and "fs p = Inr d"
    and "\<forall>xs. d \<noteq> JArr xs"
  shows "load_file fs p = Inl (ValueError (p @ '' is not a JSON array''))
    \<and> main ops fs (ps @ p # qs) = ([], Inl (ValueError (p @ '' is not a JSON array'')))
    \<and> exit_status (main ops fs (ps @ p # qs)) = 1"
proof -
  have lf: "load_file fs p = Inl (ValueError (p @ '' is not a JSON array''))"
    using assms(2,3) by (rule load_file_not_array)
  have "load_all fs (ps @ p # qs) [] = Inl (ValueError (p @ '' is not a JSON array''))"
    by (simp add: load_all_append assms(1) lf)
  then have m: "main ops fs (ps @ p # qs) = ([], Inl (ValueError (p @ '' is not a JSON array'')))"
    by (simp add: main_def lift_io_def)
  show ?thesis using lf m by (simp add: exit_status_def)
qed

theorem non_array_aborts_run_witness:
  "load_all example_files [''a.json''] [] = Inr [example_rust, example_moonbit]
   \<and> example_files ''obj.json'' = Inr (JObj [])
   \<and> load_file example_files ''obj.json'' = Inl (ValueError ''obj.json is not a JSON array'')
   \<and> main rat_ops example_files [''a.json'', ''obj.json'', ''b.json'']
        = ([], Inl (ValueError ''obj.json is not a JSON array''))
   \<and> exit_status (main rat_ops example_files [''a.json'', ''obj.json'', ''b.json'']) = 1"
proof -
  have h1: "load_all example_files [''a.json''] [] = Inr [example_rust, example_moonbit]"
    by (rule example_load_a)
  have h2: "example_files ''obj.json'' = Inr (JObj [])"
    by (simp add: example_files_def)
  have h3: "\<forall>xs. (JObj [] :: rat json) \<noteq> JArr xs"
    by simp
  show ?thesis
    using non_array_aborts_run [OF h1 h2 h3, of rat_ops "[''b.json'']"] h1 h2
    by (simp add: exit_status_def)
qed

lemma scenario_of_not_object:
  assumes "\<forall>d. x \<noteq> JObj d"
  shows "scenario_of x = Inl AttributeError"
  using assms by (cases x) (simp_all add: scenario_of_def)

lemma hashable_cases: "hashable v = Inl TypeError \<or> (\<exists>k. hashable v = Inr k)"
  by (cases v) simp_all

lemma scenario_of_cases:
  "scenario_of x = Inl AttributeError \<or> scenario_of x = Inl TypeError \<or> (\<exists>k. scenario_of x = Inr k)"
proof (cases x)
  case (JObj d)
  then show ?thesis
    using hashable_cases [of "dict_get d ''scenario'' (JStr [])"]
    by (auto simp: scenario_of_def)
qed (simp_all add: scenario_of_def)

lemma scenario_keys_not_object:
  assumes "x \<in> set items" and "\<forall>d. x \<noteq> JObj d"
  shows "scenario_keys items = Inl AttributeError \<or> scenario_keys items = Inl TypeError"
  using assms(1)
proof (induction items)
  case Nil
  then show ?case by simp
next
  case (Cons y ys)
  consider (a) "scenario_of y = Inl AttributeError" | (t) "scenario_of y = Inl TypeError"
    | (k) k where "scenario_of y = Inr k"
    using scenario_of_cases [of y] by blast
  then show ?case
  proof cases
    case a
    then show ?thesis by simp
  next
    case t
    then show ?thesis by simp
  next
    case k
    then have "y \<noteq> x"
      using scenario_of_not_object [OF assms(2)] by auto
    with Cons.prems have "x \<in> set ys" by simp
    then have "scenario_keys ys = Inl AttributeError \<or> scenario_keys ys = Inl TypeError"
      by (rule Cons.IH)
    with k show ?thesis by auto
  qed
qed

lemma load_file_array: "fs p = Inr (JArr xs) \<Longrightarrow> load_file fs p = Inr xs"
  by (simp add: load_file_def)

lemma example_load_nums: "load_all example_files [''nums.json''] [] = Inr [JInt 1]"
  by (simp add: load_file_def example_files_def)

lemma load_all_concat_acc:
  assumes "\<forall>p \<in> set paths. fs p = Inr (JArr (contents p))"
  shows "load_all fs paths items = Inr (items @ concat (map contents paths))"
  using assms by (induction paths arbitrary: items) (simp_all add: load_file_array)

text \<open>
  C10. The loader returns the elements of any array as they are. When one of the loaded
  elements is not an object, the set comprehension over the scenario values raises
  before anything is printed: \<^verbatim>\<open>AttributeError\<close> at the element itself, or \<^verbatim>\<open>TypeError\<close>
  at an earlier object whose scenario value is a list or a dict. The exit status is 1.
\<close>

theorem non_object_element_fails:
  assumes "paths \<noteq> []"
    and "load_all fs paths [] = Inr items"
    and "x \<in> set items"
    and "\<forall>d. x \<noteq> JObj d"
  shows "(main ops fs paths = ([], Inl AttributeError) \<or> main ops fs paths = ([], Inl TypeError))
    \<and> exit_status (main ops fs paths) = 1
    \<and> (\<forall>p xs. fs p = Inr (JArr xs) \<longrightarrow> load_file fs p = Inr xs)"
proof -
  have "scenario_keys items = Inl AttributeError \<or> scenario_keys items = Inl TypeError"
    using assms(3,4) by (rule scenario_keys_not_object)
  then have m: "main ops fs paths = ([], Inl AttributeError) \<or> main ops fs paths = ([], Inl TypeError)"
    using assms(1,2) by (auto simp: main_def lift_io_def)
  then have "exit_status (main ops fs paths) = 1"
    by (auto simp: exit_status_def)
  with m show ?thesis by (simp add: load_file_array)
qed

theorem non_object_element_fails_witness:
  "load_all example_files [''nums.json''] [] = Inr [JInt 1]
   \<and> main rat_ops example_files [''nums.json''] = ([], Inl AttributeError)
   \<and> exit_status (main rat_ops example_files [''nums.json'']) = 1"
proof -
  have h1: "[''nums.json''] \<noteq> []" by simp
  have h2: "load_all example_files [''nums.json''] [] = Inr [JInt 1]"
    by (rule example_load_nums)
  have h3: "(JInt 1 :: rat json) \<in> set [JInt 1]" by simp
  have h4: "\<forall>d. (JInt 1 :: rat json) \<noteq> JObj d" by simp
  have m: "main rat_ops example_files [''nums.json''] = ([], Inl AttributeError)"
    by (simp add: main_def lift_io_def load_file_def example_files_def scenario_of_def)
  show ?thesis
    using non_object_element_fails [OF h1 h2 h3 h4, of rat_ops] h2 m by blast
qed

lemma to_float_bool:
  "to_float ops (JBool b) = Inr x \<Longrightarrow> f_of_int ops (if b then 1 else 0) = Some x"
  by (cases b) (simp_all split: option.splits)

lemma format_fixed_to_float:
  "to_float ops v = Inr x \<Longrightarrow> format_fixed ops w p v = Inr (rjust w (f_fixed ops p x))"
proof (cases v)
  case (JBool c)
  assume "to_float ops v = Inr x"
  with JBool have "f_of_int ops (if c then 1 else 0) = Some x"
    by (simp add: to_float_bool)
  with JBool show ?thesis by (simp add: fixed_of_int_def)
qed (auto simp: fixed_of_int_def split: option.splits)

lemma length_ljust: "length (ljust w s) = max w (length s)"
  by (simp add: ljust_def)

lemma length_rjust: "length (rjust w s) = max w (length s)"
  by (simp add: rjust_def)

lemma dict_get_absent: "map_of d k = None \<Longrightarrow> dict_get d k dflt = dflt"
  by (simp add: dict_get_def)

lemma replicate_num: "replicate (numeral k) x = x # replicate (pred_numeral k) x"
  by (simp add: numeral_eq_Suc)

lemma ljust_rust: "ljust 10 ''rust'' = ''rust      ''"
  by (simp add: ljust_def replicate_num)

lemma rat_fixed_3_10: "rat_fixed 3 10 = ''10.000''"
  apply (simp add: rat_fixed_def Let_def)
  apply (simp add: digits.simps replicate_num)
  done

lemma rat_fixed_6_zero: "rat_fixed 6 0 = ''0.000000''"
  apply (simp add: rat_fixed_def Let_def)
  apply (simp add: digits.simps replicate_num)
  done

lemma rjust_ns: "rjust 12 (rat_fixed 3 10) = ''      10.000''"
  by (simp add: rat_fixed_3_10 rjust_def replicate_num)

lemma rjust_secs: "rjust 12 (rat_fixed 6 0) = ''    0.000000''"
  by (simp add: rat_fixed_6_zero rjust_def replicate_num)

lemma str_int_1000: "str_int 1000 = ''1000''"
  by (simp add: str_int_def digits.simps)

lemma rjust_iters: "rjust 10 (str_int 1000) = ''      1000''"
  by (simp add: str_int_1000 rjust_def replicate_num)

text \<open>
  C4. For a record whose \<^verbatim>\<open>ns_per_iter\<close> and \<^verbatim>\<open>total_secs\<close> are numbers and whose \<^verbatim>\<open>iters\<close> is
  an integer, each of them possibly absent, \<open>format_row\<close> returns one line: the label and
  the target left-aligned in 10 characters, \<^verbatim>\<open>ns_per_iter\<close> with 3 decimals and
  \<^verbatim>\<open>total_secs\<close> with 6 decimals right-aligned in 12 characters, \<^verbatim>\<open>iters\<close> right-aligned in
  10 characters, separated by single spaces. An absent field is formatted as \<^verbatim>\<open>0.0\<close>,
  \<^verbatim>\<open>0.0\<close> and \<^verbatim>\<open>0\<close>, so a missing field never makes it raise. A field is as wide as its
  width, or as its content when that is longer.
\<close>

theorem format_row_line:
  assumes "to_float ops (dict_get d ''ns_per_iter'' (JFloat (f_zero ops))) = Inr ns"
    and "to_float ops (dict_get d ''total_secs'' (JFloat (f_zero ops))) = Inr secs"
    and "dict_get d ''iters'' (JInt 0) = JInt n"
  shows "format_row ops label target (JObj d) =
           Inr (ljust 10 label @ '' '' @ ljust 10 target @ '' '' @ rjust 12 (f_fixed ops 3 ns)
                @ '' '' @ rjust 12 (f_fixed ops 6 secs) @ '' '' @ rjust 10 (str_int n))
    \<and> (map_of d ''ns_per_iter'' = None \<longrightarrow> ns = f_zero ops)
    \<and> (map_of d ''total_secs'' = None \<longrightarrow> secs = f_zero ops)
    \<and> (map_of d ''iters'' = None \<longrightarrow> n = 0)
    \<and> length (ljust 10 label) = max 10 (length label)
    \<and> length (ljust 10 target) = max 10 (length target)
    \<and> length (rjust 12 (f_fixed ops 3 ns)) = max 12 (length (f_fixed ops 3 ns))
    \<and> length (rjust 12 (f_fixed ops 6 secs)) = max 12 (length (f_fixed ops 6 secs))
    \<and> length (rjust 10 (str_int n)) = max 10 (length (str_int n))"
proof -
  have row: "format_row ops label target (JObj d) =
           Inr (ljust 10 label @ '' '' @ ljust 10 target @ '' '' @ rjust 12 (f_fixed ops 3 ns)
                @ '' '' @ rjust 12 (f_fixed ops 6 secs) @ '' '' @ rjust 10 (str_int n))"
    by (simp add: format_row_def format_fixed_to_float [OF assms(1)]
        format_fixed_to_float [OF assms(2)] assms(3))
  have a: "map_of d ''ns_per_iter'' = None \<longrightarrow> ns = f_zero ops"
    using assms(1) by (auto simp: dict_get_absent)
  have b: "map_of d ''total_secs'' = None \<longrightarrow> secs = f_zero ops"
    using assms(2) by (auto simp: dict_get_absent)
  have c: "map_of d ''iters'' = None \<longrightarrow> n = 0"
    using assms(3) by (auto simp: dict_get_absent)
  show ?thesis
    using row a b c by (simp add: length_ljust length_rjust)
qed

theorem format_row_line_witness:
  "format_row rat_ops ''rust'' ''rust''
     (JObj [(''ns_per_iter'', JFloat 10), (''iters'', JInt 1000)])
   = Inr ''rust       rust             10.000     0.000000       1000''"
proof -
  let ?d = "[(''ns_per_iter'', JFloat (10::rat)), (''iters'', JInt 1000)]"
  have h1: "to_float rat_ops (dict_get ?d ''ns_per_iter'' (JFloat (f_zero rat_ops))) = Inr 10"
    by (simp add: dict_get_def)
  have h2: "to_float rat_ops (dict_get ?d ''total_secs'' (JFloat (f_zero rat_ops))) = Inr 0"
    by (simp add: dict_get_def rat_ops_def)
  have h3: "dict_get ?d ''iters'' (JInt 0) = JInt 1000"
    by (simp add: dict_get_def)
  have f: "f_fixed rat_ops = rat_fixed"
    by (simp add: rat_ops_def)
  have "format_row rat_ops ''rust'' ''rust'' (JObj ?d) =
           Inr (ljust 10 ''rust'' @ '' '' @ ljust 10 ''rust'' @ '' '' @ rjust 12 (rat_fixed 3 10)
                @ '' '' @ rjust 12 (rat_fixed 6 0) @ '' '' @ rjust 10 (str_int 1000))"
    by (rule conjunct1 [OF format_row_line [OF h1 h2 h3, unfolded f]])
  then show ?thesis
    unfolding ljust_rust rjust_ns rjust_secs rjust_iters by simp
qed

text \<open>
  C8. The row is a function of the label, the target and the three fields that
  \<open>format_row\<close> reads: two records that agree on \<^verbatim>\<open>ns_per_iter\<close>, \<^verbatim>\<open>total_secs\<close> and
  \<^verbatim>\<open>iters\<close> give the same result, whatever other fields they have and in whatever order.
\<close>

theorem format_row_depends_on_fields_only:
  assumes "\<forall>k \<in> {''ns_per_iter'', ''total_secs'', ''iters''}. \<forall>dflt. get a k dflt = get b k dflt"
  shows "format_row ops label target a = format_row ops label target b"
  using assms by (simp add: format_row_def)

theorem format_row_depends_on_fields_only_witness:
  "format_row rat_ops ''rust'' ''rust'' example_rust
     = format_row rat_ops ''rust'' ''rust'' example_reordered"
proof -
  have h: "\<forall>k \<in> {''ns_per_iter'', ''total_secs'', ''iters''}.
             \<forall>dflt. get example_rust k dflt = get example_reordered k dflt"
    by (simp add: example_rust_def example_reordered_def dict_get_def)
  show ?thesis
    by (rule format_row_depends_on_fields_only [OF h])
qed

lemma build_lookup_last:
  assumes "build_lookup es m = Inr lookup"
  shows "lookup k = (case filter (\<lambda>e. lookup_key e = Inr k) es of
                       [] \<Rightarrow> m k | x # xs \<Rightarrow> Some (last (x # xs)))"
  using assms
proof (induction es arbitrary: m)
  case Nil
  then show ?case by simp
next
  case (Cons e es)
  from Cons.prems obtain k' where k': "lookup_key e = Inr k'"
    by (cases "lookup_key e") simp_all
  with Cons.prems have "build_lookup es (m(k' \<mapsto> e)) = Inr lookup"
    by simp
  then have ih: "lookup k = (case filter (\<lambda>e. lookup_key e = Inr k) es of
                       [] \<Rightarrow> (m(k' \<mapsto> e)) k | x # xs \<Rightarrow> Some (last (x # xs)))"
    by (rule Cons.IH)
  show ?case
  proof (cases "k' = k")
    case True
    with ih k' show ?thesis
      by (cases "filter (\<lambda>e. lookup_key e = Inr k) es") simp_all
  next
    case False
    with ih k' show ?thesis
      by (cases "filter (\<lambda>e. lookup_key e = Inr k) es") simp_all
  qed
qed

lemma lookup_key_example_rust: "lookup_key example_rust = Inr (KStr ''rust'', KStr ''rust'')"
  by (simp add: lookup_key_def example_rust_def dict_get_def)

lemma lookup_key_example_rerun: "lookup_key example_rerun = Inr (KStr ''rust'', KStr ''rust'')"
  by (simp add: lookup_key_def example_rerun_def dict_get_def)

lemma lookup_key_example_moonbit:
  "lookup_key example_moonbit = Inr (KStr ''moonbit'', KStr ''native'')"
  by (simp add: lookup_key_def example_moonbit_def dict_get_def)

lemma rat_fixed_6_secs: "rat_fixed 6 (1 / 100000) = ''0.000010''"
  apply (simp add: rat_fixed_def Let_def)
  apply (simp add: digits.simps replicate_num)
  done

lemma rat_fixed_3_20: "rat_fixed 3 20 = ''20.000''"
  apply (simp add: rat_fixed_def Let_def)
  apply (simp add: digits.simps replicate_num)
  done

lemma rat_fixed_6_secs2: "rat_fixed 6 (1 / 50000) = ''0.000020''"
  apply (simp add: rat_fixed_def Let_def)
  apply (simp add: digits.simps replicate_num)
  done

lemma format_row_rat:
  assumes "dict_get d ''ns_per_iter'' (JFloat 0) = JFloat a"
    and "dict_get d ''total_secs'' (JFloat 0) = JFloat b"
    and "dict_get d ''iters'' (JInt 0) = JInt n"
  shows "format_row rat_ops label target (JObj d) =
           Inr (ljust 10 label @ '' '' @ ljust 10 target @ '' '' @ rjust 12 (rat_fixed 3 a)
                @ '' '' @ rjust 12 (rat_fixed 6 b) @ '' '' @ rjust 10 (str_int n))"
  using assms by (simp add: format_row_def rat_ops_def)

lemma rjust_secs1: "rjust 12 (rat_fixed 6 (1 / 100000)) = ''    0.000010''"
  by (simp add: rat_fixed_6_secs rjust_def replicate_num)

lemma rjust_ns2: "rjust 12 (rat_fixed 3 20) = ''      20.000''"
  by (simp add: rat_fixed_3_20 rjust_def replicate_num)

lemma rjust_secs2: "rjust 12 (rat_fixed 6 (1 / 50000)) = ''    0.000020''"
  by (simp add: rat_fixed_6_secs2 rjust_def replicate_num)

lemma ljust_moonbit: "ljust 10 ''moonbit'' = ''moonbit   ''"
  by (simp add: ljust_def replicate_num)

lemma ljust_native: "ljust 10 ''native'' = ''native    ''"
  by (simp add: ljust_def replicate_num)

lemma format_row_example_rust:
  "format_row rat_ops ''rust'' ''rust'' example_rust
     = Inr ''rust       rust             10.000     0.000010       1000''"
proof -
  have "format_row rat_ops ''rust'' ''rust'' example_rust =
           Inr (ljust 10 ''rust'' @ '' '' @ ljust 10 ''rust'' @ '' '' @ rjust 12 (rat_fixed 3 10)
                @ '' '' @ rjust 12 (rat_fixed 6 (1 / 100000)) @ '' '' @ rjust 10 (str_int 1000))"
    unfolding example_rust_def by (rule format_row_rat) (simp_all add: dict_get_def)
  then show ?thesis
    unfolding ljust_rust rjust_ns rjust_secs1 rjust_iters by simp
qed

lemma format_row_example_moonbit:
  "format_row rat_ops ''moonbit'' ''native'' example_moonbit
     = Inr ''moonbit    native           20.000     0.000020       1000''"
proof -
  have "format_row rat_ops ''moonbit'' ''native'' example_moonbit =
           Inr (ljust 10 ''moonbit'' @ '' '' @ ljust 10 ''native'' @ '' ''
                @ rjust 12 (rat_fixed 3 20) @ '' '' @ rjust 12 (rat_fixed 6 (1 / 50000))
                @ '' '' @ rjust 10 (str_int 1000))"
    unfolding example_moonbit_def by (rule format_row_rat) (simp_all add: dict_get_def)
  then show ?thesis
    unfolding ljust_moonbit ljust_native rjust_ns2 rjust_secs2 rjust_iters by simp
qed

lemma sane_positive_nonzero:
  "float_sane ops \<Longrightarrow> f_gt_zero ops x \<Longrightarrow> \<not> f_is_zero ops x"
  by (auto simp: float_sane_def)

lemma rust_ns_positive:
  assumes "float_sane ops"
  shows "py_gt_zero ops (py_or ops (JFloat x) (JFloat (f_zero ops))) = Inr (f_gt_zero ops x)"
  using assms by (auto simp: py_or_def float_sane_def)

lemma rust_ns_value:
  assumes "float_sane ops" and "f_gt_zero ops x"
  shows "py_or ops (JFloat x) (JFloat (f_zero ops)) = JFloat x"
  using sane_positive_nonzero [OF assms] by (simp add: py_or_def)

lemma truediv_floats:
  "\<not> f_is_zero ops y \<Longrightarrow> py_truediv ops (JFloat x) (JFloat y) = Inr (f_div ops x y)"
  by (simp add: py_truediv_def)

lemma ratio_line_distinct:
  "ratio_line ops ''moonbit'' ''native'' r \<noteq> ratio_line ops ''moonbit'' ''wasm-gc'' r'"
  by (simp add: ratio_line_def)

lemma rat_ops_sane: "float_sane rat_ops"
  by (simp add: float_sane_def rat_ops_def)

lemma rat_fixed_3_2: "rat_fixed 3 2 = ''2.000''"
  apply (simp add: rat_fixed_def Let_def)
  apply (simp add: digits.simps replicate_num)
  done

lemma is_str_cases: "is_str v \<Longrightarrow> \<exists>s. v = JStr s"
  by (cases v) simp_all

lemma scenario_of_str:
  assumes "absent_or is_str d ''scenario''"
  shows "scenario_of (JObj d) = Inr (KStr (scenario_name (JObj d)))"
proof (cases "map_of d ''scenario''")
  case None
  then show ?thesis by (simp add: scenario_of_def dict_get_def)
next
  case (Some v)
  with assms have "is_str v" by (simp add: absent_or_def)
  then obtain s where "v = JStr s" using is_str_cases by blast
  with Some show ?thesis by (simp add: scenario_of_def dict_get_def)
qed

lemma scenario_keys_str:
  assumes "\<forall>item \<in> set items. \<exists>d. item = JObj d \<and> absent_or is_str d ''scenario''"
  shows "scenario_keys items = Inr (map (\<lambda>item. KStr (scenario_name item)) items)"
  using assms
proof (induction items)
  case Nil
  show ?case by simp
next
  case (Cons item items)
  from Cons.prems obtain d where "item = JObj d" and "absent_or is_str d ''scenario''"
    by auto
  then have "scenario_of item = Inr (KStr (scenario_name item))"
    by (simp add: scenario_of_str)
  moreover from Cons have "scenario_keys items = Inr (map (\<lambda>item. KStr (scenario_name item)) items)"
    by simp
  ultimately show ?case by simp
qed

lemma str_keys_map: "str_keys (map KStr ss) = Some ss"
  by (induction ss) simp_all

lemma sorted_set_str: "sorted_set ops (map KStr ss) = Inr (map KStr (sort (remdups ss)))"
  by (simp add: sorted_set_def str_keys_map)

lemma same_key_str: "same_key ops (KStr s) (KStr t) = (s = t)"
  by (simp add: same_key_def)

lemma append_to_str:
  assumes "distinct names" and "s \<in> set names"
  shows "append_to ops (KStr s) item (map (\<lambda>n. (KStr n, g n)) names)
           = Inr (map (\<lambda>n. (KStr n, if n = s then g n @ [item] else g n)) names)"
  using assms
proof (induction names)
  case Nil
  then show ?case by simp
next
  case (Cons n names)
  show ?case
  proof (cases "n = s")
    case True
    with Cons.prems have "s \<notin> set names" by simp
    then have "map (\<lambda>n. (KStr n, if n = s then g n @ [item] else g n)) names
                 = map (\<lambda>n. (KStr n, g n)) names"
      by (intro map_cong) auto
    with True show ?thesis by (simp add: same_key_str)
  next
    case False
    with Cons.prems have "distinct names" and "s \<in> set names" by simp_all
    from Cons.IH [OF this] False show ?thesis by (simp add: same_key_str)
  qed
qed

lemma group_items_str:
  assumes "distinct names"
    and "\<forall>item \<in> set items. (\<exists>d. item = JObj d \<and> absent_or is_str d ''scenario'')
           \<and> scenario_name item \<in> set names"
  shows "group_items ops items (map (\<lambda>n. (KStr n, g n)) names)
           = Inr (map (\<lambda>n. (KStr n, g n @ filter (\<lambda>i. scenario_name i = n) items)) names)"
  using assms(2)
proof (induction items arbitrary: g)
  case Nil
  show ?case by simp
next
  case (Cons item items)
  from Cons.prems obtain d where "item = JObj d" and "absent_or is_str d ''scenario''"
    by auto
  then have so: "scenario_of item = Inr (KStr (scenario_name item))"
    by (simp add: scenario_of_str)
  from Cons.prems have mem: "scenario_name item \<in> set names" by simp
  let ?g = "\<lambda>n. if n = scenario_name item then g n @ [item] else g n"
  have ap: "append_to ops (KStr (scenario_name item)) item (map (\<lambda>n. (KStr n, g n)) names)
              = Inr (map (\<lambda>n. (KStr n, ?g n)) names)"
    using assms(1) mem by (rule append_to_str)
  from Cons.prems have rest: "\<forall>item \<in> set items.
      (\<exists>d. item = JObj d \<and> absent_or is_str d ''scenario'') \<and> scenario_name item \<in> set names"
    by simp
  have "group_items ops items (map (\<lambda>n. (KStr n, ?g n)) names)
          = Inr (map (\<lambda>n. (KStr n, ?g n @ filter (\<lambda>i. scenario_name i = n) items)) names)"
    using rest by (rule Cons.IH)
  also have "map (\<lambda>n. (KStr n, ?g n @ filter (\<lambda>i. scenario_name i = n) items)) names
          = map (\<lambda>n. (KStr n, g n @ filter (\<lambda>i. scenario_name i = n) (item # items))) names"
    by (intro map_cong) auto
  finally show ?case by (simp add: so ap)
qed

lemma entries_of_str:
  "entries_of ops (map (\<lambda>n. (KStr n, g n)) names) (KStr s) = (if s \<in> set names then g s else [])"
  by (induction names) (auto simp: same_key_str)

lemma record_ok_object:
  assumes "record_ok ops item"
  obtains d where "item = JObj d"
  using assms by (cases item) simp_all

lemma not_isl_Inr: "\<not> isl m \<Longrightarrow> \<exists>x. m = Inr x"
  by (cases m) simp_all

lemma lookup_key_ok:
  assumes "record_ok ops e"
  shows "\<exists>k. lookup_key e = Inr k"
proof -
  from assms obtain d where d: "e = JObj d" by (rule record_ok_object)
  with assms obtain ki kt where "hashable (dict_get d ''impl'' JNull) = Inr ki"
    and "hashable (dict_get d ''target'' JNull) = Inr kt"
    using not_isl_Inr by fastforce
  with d show ?thesis by (simp add: lookup_key_def)
qed

lemma dict_get_null_str: "(dict_get d k JNull = JStr s) = (map_of d k = Some (JStr s))"
  by (simp add: dict_get_def split: option.splits)

lemma hashable_str_iff: "(hashable v = Inr (KStr s)) = (v = JStr s)"
  by (cases v) auto

lemma lookup_key_has_pair: "(lookup_key e = Inr (KStr i, KStr t)) = has_pair i t e"
proof (cases e)
  case (JObj d)
  show ?thesis
  proof (cases "hashable (dict_get d ''impl'' JNull)")
    case (Inl a)
    then have "dict_get d ''impl'' JNull \<noteq> JStr i" by auto
    with Inl JObj show ?thesis by (simp add: lookup_key_def dict_get_null_str)
  next
    case ki: (Inr ki)
    show ?thesis
    proof (cases "hashable (dict_get d ''target'' JNull)")
      case (Inl a)
      then have "dict_get d ''target'' JNull \<noteq> JStr t" by auto
      with Inl ki JObj show ?thesis by (simp add: lookup_key_def dict_get_null_str)
    next
      case kt: (Inr kt)
      have "(ki = KStr i) = (map_of d ''impl'' = Some (JStr i))"
        using ki hashable_str_iff [of "dict_get d ''impl'' JNull" i]
        by (simp add: dict_get_null_str)
      moreover have "(kt = KStr t) = (map_of d ''target'' = Some (JStr t))"
        using kt hashable_str_iff [of "dict_get d ''target'' JNull" t]
        by (simp add: dict_get_null_str)
      ultimately show ?thesis using ki kt JObj by (simp add: lookup_key_def)
    qed
  qed
qed (simp_all add: lookup_key_def)

lemma build_lookup_ok:
  assumes "\<forall>e \<in> set es. record_ok ops e"
  shows "\<exists>lookup. build_lookup es m = Inr lookup"
  using assms
proof (induction es arbitrary: m)
  case Nil
  show ?case by simp
next
  case (Cons e es)
  from Cons.prems have "record_ok ops e" by simp
  then obtain k where "lookup_key e = Inr k" using lookup_key_ok by blast
  moreover from Cons have "\<exists>lookup. build_lookup es (m(k \<mapsto> e)) = Inr lookup" by simp
  ultimately show ?case by simp
qed

lemma lookup_last_with:
  assumes "build_lookup es Map.empty = Inr lookup"
  shows "lookup (KStr i, KStr t) = last_with es i t"
proof -
  have "filter (\<lambda>e. lookup_key e = Inr (KStr i, KStr t)) es = filter (has_pair i t) es"
    by (simp add: lookup_key_has_pair)
  with build_lookup_last [OF assms, of "(KStr i, KStr t)"] show ?thesis
    by (simp add: last_with_def)
qed

lemma last_with_mem: "last_with es i t = Some e \<Longrightarrow> e \<in> set es \<and> has_pair i t e"
proof -
  assume a: "last_with es i t = Some e"
  then have ne: "filter (has_pair i t) es \<noteq> []" and e: "e = last (filter (has_pair i t) es)"
    by (auto simp: last_with_def split: list.splits)
  from ne have "last (filter (has_pair i t) es) \<in> set (filter (has_pair i t) es)"
    by (rule last_in_set)
  with e show ?thesis by simp
qed

lemma has_pair_truthy: "has_pair i t e \<Longrightarrow> truthy ops e"
  by (cases e) auto

lemma format_row_ok:
  assumes "record_ok ops item"
  shows "format_row ops i t item = Inr (row_text ops i t item)"
proof -
  from assms obtain d where d: "item = JObj d" by (rule record_ok_object)
  from assms d obtain x y s where
    x: "to_float ops (dict_get d ''ns_per_iter'' (JFloat (f_zero ops))) = Inr x"
    and y: "to_float ops (dict_get d ''total_secs'' (JFloat (f_zero ops))) = Inr y"
    and s: "format_plain ops 10 (dict_get d ''iters'' (JInt 0)) = Inr s"
    using not_isl_Inr by (metis record_ok.simps(1))
  have "\<exists>row. format_row ops i t item = Inr row"
    by (simp add: d format_row_def format_fixed_to_float [OF x] format_fixed_to_float [OF y] s)
  then show ?thesis by (auto simp: row_text_def)
qed

lemma print_rows_valid:
  assumes "\<forall>(i, t) \<in> set ps. \<forall>item. lookup (KStr i, KStr t) = Some item \<longrightarrow>
             truthy ops item \<and> record_ok ops item"
  shows "print_rows ops lookup ps =
           (concat (map (\<lambda>(i, t). case lookup (KStr i, KStr t) of
                                  None \<Rightarrow> [] | Some item \<Rightarrow> [row_text ops i t item]) ps), Inr ())"
  using assms
proof (induction ps)
  case Nil
  show ?case by (simp add: done_io_def)
next
  case (Cons p ps)
  obtain i t where p: "p = (i, t)" by (cases p)
  from Cons have ih: "print_rows ops lookup ps =
           (concat (map (\<lambda>(i, t). case lookup (KStr i, KStr t) of
                                  None \<Rightarrow> [] | Some item \<Rightarrow> [row_text ops i t item]) ps), Inr ())"
    by simp
  show ?case
  proof (cases "lookup (KStr i, KStr t)")
    case None
    with p ih show ?thesis by (simp add: done_io_def)
  next
    case (Some item)
    with Cons.prems p have tr: "truthy ops item" and ok: "record_ok ops item" by auto
    show ?thesis
      by (simp add: p Some tr format_row_ok [OF ok] ih lift_io_def print_line_def)
  qed
qed

lemma to_float_number: "\<not> isl (to_float ops v) \<Longrightarrow> is_number v"
  by (cases v) simp_all

lemma record_ok_number:
  assumes "record_ok ops item"
  shows "is_number (ns_per_iter_of ops item)"
proof -
  from assms obtain d where d: "item = JObj d" by (rule record_ok_object)
  with assms have "\<not> isl (to_float ops (dict_get d ''ns_per_iter'' (JFloat (f_zero ops))))"
    by simp
  then have "is_number (dict_get d ''ns_per_iter'' (JFloat (f_zero ops)))"
    by (rule to_float_number)
  with d show ?thesis by (simp add: ns_per_iter_of_def)
qed

lemma record_ok_get_ns:
  assumes "record_ok ops item"
  shows "get item ''ns_per_iter'' (JFloat (f_zero ops)) = Inr (ns_per_iter_of ops item)"
proof -
  from assms obtain d where d: "item = JObj d" by (rule record_ok_object)
  then show ?thesis by (simp add: ns_per_iter_of_def)
qed

lemma number_gt_zero: "is_number v \<Longrightarrow> \<exists>b. py_gt_zero ops v = Inr b"
  by (cases v) simp_all

lemma or_zero_gt:
  assumes "float_sane ops" and "is_number v"
  shows "py_gt_zero ops (py_or ops v (JFloat (f_zero ops))) = py_gt_zero ops v"
proof (cases v)
  case (JFloat x)
  with assms(1) show ?thesis by (simp add: rust_ns_positive)
next
  case (JInt n)
  with assms(1) show ?thesis by (auto simp: py_or_def float_sane_def)
next
  case (JBool b)
  with assms(1) show ?thesis by (auto simp: py_or_def float_sane_def)
qed (use assms(2) in simp_all)

lemma or_zero_value:
  assumes "float_sane ops" and "py_gt_zero ops v = Inr True"
  shows "py_or ops v (JFloat (f_zero ops)) = v"
proof (cases v)
  case (JFloat x)
  with assms show ?thesis by (simp add: rust_ns_value)
next
  case (JInt n)
  with assms show ?thesis by (simp add: py_or_def)
next
  case (JBool b)
  with assms show ?thesis by (simp add: py_or_def)
qed (use assms(2) in simp_all)

lemma print_ratio_valid:
  assumes sane: "float_sane ops"
    and lk: "\<And>i t. lookup (KStr i, KStr t) = last_with es i t"
    and ok: "\<forall>e \<in> set es. record_ok ops e"
    and div: "ratios_ok ops es"
    and ref: "ref \<in> set es"
  shows "print_ratio ops lookup (py_or ops (ns_per_iter_of ops ref) (JFloat (f_zero ops))) i t =
           (case last_with es i t of
              None \<Rightarrow> []
            | Some item \<Rightarrow>
                if py_gt_zero ops (ns_per_iter_of ops ref) = Inr True
                then (case py_truediv ops (ns_per_iter_of ops item) (ns_per_iter_of ops ref) of
                        Inr ratio \<Rightarrow>
                          [''ratio vs rust ('' @ i @ ''/'' @ t @ ''): '' @ f_fixed ops 3 ratio @ ''x'']
                      | Inl e \<Rightarrow> [])
                else [],
            Inr ())"
proof (cases "last_with es i t")
  case None
  then show ?thesis by (simp add: print_ratio_def lk done_io_def)
next
  case (Some item)
  from last_with_mem [OF Some] have mem: "item \<in> set es" and hp: "has_pair i t item"
    by simp_all
  from hp have tr: "truthy ops item" by (rule has_pair_truthy)
  from ok ref have num: "is_number (ns_per_iter_of ops ref)" by (simp add: record_ok_number)
  from ok mem have g: "get item ''ns_per_iter'' (JFloat (f_zero ops)) = Inr (ns_per_iter_of ops item)"
    by (simp add: record_ok_get_ns)
  from number_gt_zero [OF num] obtain b where b: "py_gt_zero ops (ns_per_iter_of ops ref) = Inr b"
    by blast
  show ?thesis
  proof (cases b)
    case False
    with b show ?thesis
      by (simp add: print_ratio_def lk Some tr or_zero_gt [OF sane num] lift_io_def done_io_def)
  next
    case True
    with b have pos: "py_gt_zero ops (ns_per_iter_of ops ref) = Inr True" by simp
    from div mem ref pos obtain r where
      r: "py_truediv ops (ns_per_iter_of ops item) (ns_per_iter_of ops ref) = Inr r"
      using not_isl_Inr unfolding ratios_ok_def by blast
    show ?thesis
      by (simp add: print_ratio_def lk Some tr or_zero_gt [OF sane num] pos
          or_zero_value [OF sane pos] g r lift_io_def print_line_def ratio_line_def)
  qed
qed

lemma ratio_block_valid:
  assumes sane: "float_sane ops"
    and lk: "\<And>i t. lookup (KStr i, KStr t) = last_with es i t"
    and ok: "\<forall>e \<in> set es. record_ok ops e"
    and div: "ratios_ok ops es"
  shows "ratio_block ops lookup = (expected_ratios ops es, Inr ())"
proof (cases "last_with es ''rust'' ''rust''")
  case None
  then show ?thesis by (simp add: ratio_block_def lk expected_ratios_def done_io_def)
next
  case (Some ref)
  from last_with_mem [OF Some] have mem: "ref \<in> set es" and hp: "has_pair ''rust'' ''rust'' ref"
    by simp_all
  from hp have tr: "truthy ops ref" by (rule has_pair_truthy)
  from ok mem have g: "get ref ''ns_per_iter'' (JFloat (f_zero ops)) = Inr (ns_per_iter_of ops ref)"
    by (simp add: record_ok_get_ns)
  note pr = print_ratio_valid [OF sane lk ok div mem]
  show ?thesis
  proof (cases "py_gt_zero ops (ns_per_iter_of ops ref) = Inr True")
    case True
    then show ?thesis
      by (simp add: ratio_block_def lk Some tr g lift_io_def order_def pr done_io_def
          expected_ratios_def cong: option.case_cong)
  next
    case False
    then show ?thesis
      by (simp add: ratio_block_def lk Some tr g lift_io_def order_def pr done_io_def
          expected_ratios_def split: option.splits)
  qed
qed

lemma column_header_text:
  "column_header = ''impl       target          ns/iter         secs      iters''"
  by (simp add: column_header_def ljust_def rjust_def replicate_num)

lemma record_ok_scenario:
  assumes "record_ok ops item"
  shows "\<exists>d. item = JObj d \<and> absent_or is_str d ''scenario''"
proof -
  from assms obtain d where d: "item = JObj d" by (rule record_ok_object)
  with assms show ?thesis by simp
qed

lemma ratios_ok_subset:
  assumes "ratios_ok ops items" and "set es \<subseteq> set items"
  shows "ratios_ok ops es"
  using assms unfolding ratios_ok_def by blast

lemma section_body_valid:
  assumes sane: "float_sane ops"
    and ok: "\<forall>e \<in> set es. record_ok ops e"
    and div: "ratios_ok ops es"
  shows "bind_io (lift_io (build_lookup es Map.empty)) (\<lambda>lookup.
           bind_io (print_rows ops lookup order) (\<lambda>_.
           bind_io (ratio_block ops lookup) (\<lambda>_. print_line [])))
         = (expected_rows ops es @ expected_ratios ops es @ [[]], Inr ())"
proof -
  from build_lookup_ok [OF ok] obtain lookup where
    b: "build_lookup es Map.empty = Inr lookup" by blast
  have lk: "\<And>i t. lookup (KStr i, KStr t) = last_with es i t"
    by (rule lookup_last_with [OF b])
  have found: "\<forall>(i, t) \<in> set order. \<forall>item. lookup (KStr i, KStr t) = Some item \<longrightarrow>
                 truthy ops item \<and> record_ok ops item"
  proof (clarify)
    fix i t item
    assume "lookup (KStr i, KStr t) = Some item"
    then have "last_with es i t = Some item" by (simp add: lk)
    from last_with_mem [OF this] have "item \<in> set es" and "has_pair i t item" by simp_all
    with ok show "truthy ops item \<and> record_ok ops item"
      using has_pair_truthy by blast
  qed
  have rows: "print_rows ops lookup order = (expected_rows ops es, Inr ())"
    unfolding print_rows_valid [OF found]
    by (simp add: lk expected_rows_def order_def)
  have ratios: "ratio_block ops lookup = (expected_ratios ops es, Inr ())"
    by (rule ratio_block_valid [OF sane lk ok div])
  show ?thesis
    by (simp add: b lift_io_def rows ratios print_line_def)
qed

lemma report_scenario_valid:
  assumes v: "valid_run ops items" and n: "n \<in> set names"
  shows "report_scenario ops (map (\<lambda>n. (KStr n, section_entries items n)) names) (KStr n)
           = (expected_section ops items n, Inr ())"
proof -
  let ?es = "section_entries items n"
  from v have sane: "float_sane ops" by (simp add: valid_run_def)
  from v have ok: "\<forall>e \<in> set ?es. record_ok ops e"
    by (simp add: valid_run_def section_entries_def)
  have sub: "set ?es \<subseteq> set items" by (simp add: section_entries_def)
  from v have "ratios_ok ops items" by (simp add: valid_run_def)
  then have div: "ratios_ok ops ?es" using sub by (rule ratios_ok_subset)
  have e: "entries_of ops (map (\<lambda>n. (KStr n, section_entries items n)) names) (KStr n) = ?es"
    using n by (simp add: entries_of_str)
  show ?thesis
    unfolding report_scenario_def e section_body_valid [OF sane ok div]
    by (simp add: print_line_def column_header_text expected_section_def)
qed

lemma report_valid:
  assumes v: "valid_run ops items" and sub: "set ns \<subseteq> set names"
  shows "report ops (map (\<lambda>n. (KStr n, section_entries items n)) names) (map KStr ns)
           = (concat (map (expected_section ops items) ns), Inr ())"
  using sub
proof (induction ns)
  case Nil
  show ?case by (simp add: done_io_def)
next
  case (Cons n ns)
  then have n: "n \<in> set names" and rest: "set ns \<subseteq> set names" by simp_all
  show ?case
    by (simp add: report_scenario_valid [OF v n] Cons.IH [OF rest])
qed

lemma scenario_keys_valid:
  assumes "valid_run ops items"
  shows "bind_err (scenario_keys items) (sorted_set ops) = Inr (map KStr (scenario_names items))"
proof -
  from assms have "\<forall>item \<in> set items. \<exists>d. item = JObj d \<and> absent_or is_str d ''scenario''"
    using record_ok_scenario unfolding valid_run_def by blast
  then have "scenario_keys items = Inr (map KStr (map scenario_name items))"
    by (simp add: scenario_keys_str)
  then show ?thesis by (simp only: bind_err_Inr sorted_set_str scenario_names_def)
qed

lemma group_items_valid:
  assumes "valid_run ops items"
  shows "group_items ops items (map ((\<lambda>scenario. (scenario, [])) \<circ> KStr) (scenario_names items))
           = Inr (map (\<lambda>n. (KStr n, section_entries items n)) (scenario_names items))"
proof -
  have d: "distinct (scenario_names items)" by (simp add: scenario_names_def)
  from assms have "\<forall>item \<in> set items. \<exists>d. item = JObj d \<and> absent_or is_str d ''scenario''"
    using record_ok_scenario unfolding valid_run_def by blast
  then have a: "\<forall>item \<in> set items. (\<exists>d. item = JObj d \<and> absent_or is_str d ''scenario'')
           \<and> scenario_name item \<in> set (scenario_names items)"
    by (simp add: scenario_names_def)
  have "group_items ops items (map (\<lambda>n. (KStr n, [])) (scenario_names items))
          = Inr (map (\<lambda>n. (KStr n, [] @ filter (\<lambda>i. scenario_name i = n) items)) (scenario_names items))"
    by (rule group_items_str [OF d a])
  then show ?thesis by (simp add: section_entries_def comp_def)
qed

lemma main_valid:
  assumes p: "paths \<noteq> []" and l: "load_all fs paths [] = Inr items" and v: "valid_run ops items"
  shows "main ops fs paths = (expected_report ops items, Inr None)"
proof -
  have r: "report ops (map (\<lambda>n. (KStr n, section_entries items n)) (scenario_names items))
             (map KStr (scenario_names items))
           = (expected_report ops items, Inr ())"
    unfolding expected_report_def by (rule report_valid [OF v]) simp
  show ?thesis
    by (simp add: main_def p l lift_io_def scenario_keys_valid [OF v] group_items_valid [OF v] r)
qed

lemma example_load_ac:
  "load_all example_files [''a.json'', ''c.json''] []
     = Inr [example_rust, example_moonbit, example_rerun]"
  by (simp add: load_file_def example_files_def)

lemma example_records_ok:
  "record_ok rat_ops example_rust" "record_ok rat_ops example_moonbit"
  "record_ok rat_ops example_rerun"
  by (simp_all add: example_rust_def example_moonbit_def example_rerun_def absent_or_def
      dict_get_def rat_ops_def)

lemma example_ns:
  "ns_per_iter_of rat_ops example_rust = JFloat 10"
  "ns_per_iter_of rat_ops example_moonbit = JFloat 20"
  "ns_per_iter_of rat_ops example_rerun = JInt 30"
  by (simp_all add: ns_per_iter_of_def example_rust_def example_moonbit_def example_rerun_def
      dict_get_def)

lemma example_ratios_ok: "ratios_ok rat_ops [example_rust, example_moonbit, example_rerun]"
  apply (simp add: ratios_ok_def example_ns)
  apply (simp add: py_truediv_def rat_ops_def)
  done

lemma example_valid_ac: "valid_run rat_ops [example_rust, example_moonbit, example_rerun]"
  by (simp add: valid_run_def rat_ops_sane example_records_ok example_ratios_ok)

lemma example_valid_a: "valid_run rat_ops [example_rust, example_moonbit]"
  using example_valid_ac by (simp add: valid_run_def ratios_ok_def)

lemma example_scenario:
  "scenario_name example_rust = ''s1''" "scenario_name example_moonbit = ''s1''"
  "scenario_name example_rerun = ''s1''"
  by (simp_all add: example_rust_def example_moonbit_def example_rerun_def)

lemma example_names_ac:
  "scenario_names [example_rust, example_moonbit, example_rerun] = [''s1'']"
  by (simp add: scenario_names_def example_scenario)

lemma example_names_a: "scenario_names [example_rust, example_moonbit] = [''s1'']"
  by (simp add: scenario_names_def example_scenario)

lemma example_entries_ac:
  "section_entries [example_rust, example_moonbit, example_rerun] ''s1''
     = [example_rust, example_moonbit, example_rerun]"
  by (simp add: section_entries_def example_scenario)

lemma example_entries_a:
  "section_entries [example_rust, example_moonbit] ''s1'' = [example_rust, example_moonbit]"
  by (simp add: section_entries_def example_scenario)

lemma example_pairs:
  "has_pair i t example_rust = (i = ''rust'' \<and> t = ''rust'')"
  "has_pair i t example_moonbit = (i = ''moonbit'' \<and> t = ''native'')"
  "has_pair i t example_rerun = (i = ''rust'' \<and> t = ''rust'')"
  by (auto simp: example_rust_def example_moonbit_def example_rerun_def)

lemma example_last_ac:
  "last_with [example_rust, example_moonbit, example_rerun] ''rust'' ''rust'' = Some example_rerun"
  "last_with [example_rust, example_moonbit, example_rerun] ''moonbit'' ''native''
     = Some example_moonbit"
  "last_with [example_rust, example_moonbit, example_rerun] ''moonbit'' ''wasm-gc'' = None"
  by (simp_all add: last_with_def example_pairs)

lemma example_last_a:
  "last_with [example_rust, example_moonbit] ''rust'' ''rust'' = Some example_rust"
  "last_with [example_rust, example_moonbit] ''moonbit'' ''native'' = Some example_moonbit"
  "last_with [example_rust, example_moonbit] ''moonbit'' ''wasm-gc'' = None"
  by (simp_all add: last_with_def example_pairs)

lemma rat_fixed_3_30: "rat_fixed 3 30 = ''30.000''"
  apply (simp add: rat_fixed_def Let_def)
  apply (simp add: digits.simps replicate_num)
  done

lemma rjust_ns3: "rjust 12 (rat_fixed 3 30) = ''      30.000''"
  by (simp add: rat_fixed_3_30 rjust_def replicate_num)

lemma str_int_0: "str_int 0 = ''0''"
  by (simp add: str_int_def digits.simps)

lemma rjust_iters0: "rjust 10 (str_int 0) = ''         0''"
  by (simp add: str_int_0 rjust_def replicate_num)

lemma two_thirds_floor: "\<lfloor>(2000::rat) / 3\<rfloor> = 666"
  by (rule floor_unique) simp_all

lemma rat_fixed_3_two_thirds: "rat_fixed 3 (2 / 3) = ''0.667''"
  apply (simp add: rat_fixed_def Let_def two_thirds_floor)
  apply (simp add: digits.simps replicate_num)
  done

lemma format_row_example_rerun:
  "format_row rat_ops ''rust'' ''rust'' example_rerun
     = Inr ''rust       rust             30.000     0.000000          0''"
proof -
  have "format_row rat_ops ''rust'' ''rust'' example_rerun =
           Inr (ljust 10 ''rust'' @ '' '' @ ljust 10 ''rust'' @ '' '' @ rjust 12 (rat_fixed 3 30)
                @ '' '' @ rjust 12 (rat_fixed 6 0) @ '' '' @ rjust 10 (str_int 0))"
    by (simp add: example_rerun_def format_row_def dict_get_def fixed_of_int_def rat_ops_def)
  then show ?thesis
    unfolding ljust_rust rjust_ns3 rjust_secs rjust_iters0 by simp
qed

lemma example_row_text:
  "row_text rat_ops ''rust'' ''rust'' example_rust
     = ''rust       rust             10.000     0.000010       1000''"
  "row_text rat_ops ''moonbit'' ''native'' example_moonbit
     = ''moonbit    native           20.000     0.000020       1000''"
  "row_text rat_ops ''rust'' ''rust'' example_rerun
     = ''rust       rust             30.000     0.000000          0''"
  by (simp_all only: row_text_def format_row_example_rust format_row_example_moonbit
      format_row_example_rerun sum.case)

lemma example_rows_ac:
  "expected_rows rat_ops [example_rust, example_moonbit, example_rerun]
     = [''rust       rust             30.000     0.000000          0'',
        ''moonbit    native           20.000     0.000020       1000'']"
  by (simp add: expected_rows_def example_last_ac example_row_text)

lemma example_rows_a:
  "expected_rows rat_ops [example_rust, example_moonbit]
     = [''rust       rust             10.000     0.000010       1000'',
        ''moonbit    native           20.000     0.000020       1000'']"
  by (simp add: expected_rows_def example_last_a example_row_text)

lemma example_div_ac:
  "py_truediv rat_ops (JFloat 20) (JInt 30) = Inr (2 / 3)"
  by (simp add: py_truediv_def rat_ops_def)

lemma example_div_a:
  "py_truediv rat_ops (JFloat 20) (JFloat 10) = Inr 2"
  by (simp add: py_truediv_def rat_ops_def)

lemma example_fixed: "f_fixed rat_ops = rat_fixed" "f_gt_zero rat_ops 10"
  by (simp_all add: rat_ops_def)

lemma example_ratios_ac:
  "expected_ratios rat_ops [example_rust, example_moonbit, example_rerun]
     = [''ratio vs rust (moonbit/native): 0.667x'']"
  by (simp add: expected_ratios_def example_last_ac example_ns example_div_ac example_fixed
      rat_fixed_3_two_thirds)

lemma example_ratios_a:
  "expected_ratios rat_ops [example_rust, example_moonbit]
     = [''ratio vs rust (moonbit/native): 2.000x'']"
  by (simp add: expected_ratios_def example_last_a example_ns example_div_a example_fixed
      rat_fixed_3_2)

lemma example_report_ac:
  "expected_report rat_ops [example_rust, example_moonbit, example_rerun]
     = [''== s1'',
        ''impl       target          ns/iter         secs      iters'',
        ''rust       rust             30.000     0.000000          0'',
        ''moonbit    native           20.000     0.000020       1000'',
        ''ratio vs rust (moonbit/native): 0.667x'',
        []]"
  by (simp add: expected_report_def example_names_ac expected_section_def example_entries_ac
      example_rows_ac example_ratios_ac)

lemma example_report_a:
  "expected_report rat_ops [example_rust, example_moonbit]
     = [''== s1'',
        ''impl       target          ns/iter         secs      iters'',
        ''rust       rust             10.000     0.000010       1000'',
        ''moonbit    native           20.000     0.000020       1000'',
        ''ratio vs rust (moonbit/native): 2.000x'',
        []]"
  by (simp add: expected_report_def example_names_a expected_section_def example_entries_a
      example_rows_a example_ratios_a)

lemma expected_report_rows:
  "expected_report ops items =
     concat (map (\<lambda>n.
         [''== '' @ n, ''impl       target          ns/iter         secs      iters'']
         @ concat (map (\<lambda>(i, t). case last_with (section_entries items n) i t of
                                   None \<Rightarrow> []
                                 | Some item \<Rightarrow> [row_text ops i t item])
             [(''rust'', ''rust''), (''moonbit'', ''native''), (''moonbit'', ''wasm-gc'')])
         @ expected_ratios ops (section_entries items n) @ [[]])
       (scenario_names items))"
proof -
  have "expected_section ops items = (\<lambda>n.
         [''== '' @ n, ''impl       target          ns/iter         secs      iters'']
         @ concat (map (\<lambda>(i, t). case last_with (section_entries items n) i t of
                                   None \<Rightarrow> []
                                 | Some item \<Rightarrow> [row_text ops i t item])
             [(''rust'', ''rust''), (''moonbit'', ''native''), (''moonbit'', ''wasm-gc'')])
         @ expected_ratios ops (section_entries items n) @ [[]])"
    by (rule ext) (simp only: expected_section_def expected_rows_def)
  then show ?thesis by (simp only: expected_report_def)
qed

text \<open>
  C6. In a run on valid records, the report has one section for each scenario, and the
  rows of a section follow the fixed order \<^verbatim>\<open>(rust, rust)\<close>, \<^verbatim>\<open>(moonbit, native)\<close>,
  \<^verbatim>\<open>(moonbit, wasm-gc)\<close>: after the two header lines come, pair after pair, the
  formatted row of the record the section has for the pair, and nothing for a pair it
  has no record of; then the ratio lines and the empty line. No error is raised, and
  the row of a record is what \<open>format_row\<close> returns for it.
\<close>

theorem report_rows_follow_fixed_order:
  assumes "paths \<noteq> []" and "load_all fs paths [] = Inr items" and "valid_run ops items"
  shows "main ops fs paths =
      (concat (map (\<lambda>n.
         [''== '' @ n, ''impl       target          ns/iter         secs      iters'']
         @ concat (map (\<lambda>(i, t). case last_with (section_entries items n) i t of
                                   None \<Rightarrow> []
                                 | Some item \<Rightarrow> [row_text ops i t item])
             [(''rust'', ''rust''), (''moonbit'', ''native''), (''moonbit'', ''wasm-gc'')])
         @ expected_ratios ops (section_entries items n) @ [[]])
       (scenario_names items)), Inr None)
    \<and> (\<forall>item \<in> set items. \<forall>i t. format_row ops i t item = Inr (row_text ops i t item))"
proof -
  from assms(3) have "\<forall>item \<in> set items. \<forall>i t. format_row ops i t item = Inr (row_text ops i t item)"
    by (simp add: valid_run_def format_row_ok)
  moreover have "main ops fs paths = (expected_report ops items, Inr None)"
    using assms by (rule main_valid)
  ultimately show ?thesis by (simp only: expected_report_rows simp_thms)
qed

theorem report_rows_follow_fixed_order_witness:
  "main rat_ops example_files [''a.json''] =
     ([''== s1'',
       ''impl       target          ns/iter         secs      iters'',
       ''rust       rust             10.000     0.000010       1000'',
       ''moonbit    native           20.000     0.000020       1000'',
       ''ratio vs rust (moonbit/native): 2.000x'',
       []], Inr None)"
proof -
  have ne: "[''a.json''] \<noteq> []" by simp
  note t = report_rows_follow_fixed_order [OF ne example_load_a example_valid_a]
  from t [THEN conjunct1] show ?thesis
    by (simp add: example_names_a example_entries_a example_last_a example_row_text
        example_ratios_a)
qed

text \<open>
  C7. The records of the files are concatenated in the order of the paths. In a run on
  valid records the group of a scenario is the list of its records in load order, the
  lookup of the section maps a pair \<^verbatim>\<open>(impl, target)\<close> to the last of them with that pair
  (to nothing when there is none), and the report printed is the one whose rows and
  ratio lines are computed from the last record of each pair: an earlier duplicate is
  neither printed nor used as the reference.
\<close>

theorem files_concatenated_last_record_wins:
  assumes "paths \<noteq> []"
    and "\<forall>p \<in> set paths. fs p = Inr (JArr (contents p))"
    and "items = concat (map contents paths)"
    and "valid_run ops items"
  shows "load_all fs paths [] = Inr items
    \<and> (\<exists>by_scenario.
          group_items ops items (map (\<lambda>scenario. (scenario, [])) (map KStr (scenario_names items)))
            = Inr by_scenario
          \<and> (\<forall>n \<in> set (scenario_names items).
                entries_of ops by_scenario (KStr n) = section_entries items n
                \<and> (\<exists>lookup. build_lookup (entries_of ops by_scenario (KStr n)) Map.empty = Inr lookup
                      \<and> (\<forall>i t. lookup (KStr i, KStr t) = last_with (section_entries items n) i t))))
    \<and> (\<forall>i t e. has_pair i t e = (lookup_key e = Inr (KStr i, KStr t)))
    \<and> main ops fs paths = (expected_report ops items, Inr None)"
proof -
  have "load_all fs paths [] = Inr ([] @ concat (map contents paths))"
    using assms(2) by (rule load_all_concat_acc)
  with assms(3) have l: "load_all fs paths [] = Inr items" by simp
  let ?by = "map (\<lambda>n. (KStr n, section_entries items n)) (scenario_names items)"
  have g: "group_items ops items (map (\<lambda>scenario. (scenario, [])) (map KStr (scenario_names items)))
             = Inr ?by"
    using group_items_valid [OF assms(4)] by simp
  have s: "\<forall>n \<in> set (scenario_names items).
             entries_of ops ?by (KStr n) = section_entries items n
             \<and> (\<exists>lookup. build_lookup (entries_of ops ?by (KStr n)) Map.empty = Inr lookup
                   \<and> (\<forall>i t. lookup (KStr i, KStr t) = last_with (section_entries items n) i t))"
  proof
    fix n
    assume n: "n \<in> set (scenario_names items)"
    then have e: "entries_of ops ?by (KStr n) = section_entries items n"
      by (simp add: entries_of_str)
    from assms(4) have "\<forall>e \<in> set (section_entries items n). record_ok ops e"
      by (simp add: valid_run_def section_entries_def)
    from build_lookup_ok [OF this] obtain lookup where
      b: "build_lookup (section_entries items n) Map.empty = Inr lookup" by blast
    have "\<forall>i t. lookup (KStr i, KStr t) = last_with (section_entries items n) i t"
      using lookup_last_with [OF b] by simp
    with b e show "entries_of ops ?by (KStr n) = section_entries items n
             \<and> (\<exists>lookup. build_lookup (entries_of ops ?by (KStr n)) Map.empty = Inr lookup
                   \<and> (\<forall>i t. lookup (KStr i, KStr t) = last_with (section_entries items n) i t))"
      by simp
  qed
  have m: "main ops fs paths = (expected_report ops items, Inr None)"
    using assms(1) l assms(4) by (rule main_valid)
  have k: "\<forall>i t e. has_pair i t e = (lookup_key e = Inr (KStr i, KStr t))"
    by (simp add: lookup_key_has_pair)
  from g s have "\<exists>by_scenario.
          group_items ops items (map (\<lambda>scenario. (scenario, [])) (map KStr (scenario_names items)))
            = Inr by_scenario
          \<and> (\<forall>n \<in> set (scenario_names items).
                entries_of ops by_scenario (KStr n) = section_entries items n
                \<and> (\<exists>lookup. build_lookup (entries_of ops by_scenario (KStr n)) Map.empty = Inr lookup
                      \<and> (\<forall>i t. lookup (KStr i, KStr t) = last_with (section_entries items n) i t)))"
    by (intro exI conjI)
  with l k m show ?thesis by (intro conjI)
qed

theorem files_concatenated_last_record_wins_witness:
  "load_all example_files [''a.json'', ''c.json''] []
     = Inr [example_rust, example_moonbit, example_rerun]
   \<and> main rat_ops example_files [''a.json'', ''c.json''] =
     ([''== s1'',
       ''impl       target          ns/iter         secs      iters'',
       ''rust       rust             30.000     0.000000          0'',
       ''moonbit    native           20.000     0.000020       1000'',
       ''ratio vs rust (moonbit/native): 0.667x'',
       []], Inr None)"
proof -
  let ?contents = "\<lambda>p. if p = ''a.json'' then [example_rust, example_moonbit] else [example_rerun]"
  have ne: "[''a.json'', ''c.json''] \<noteq> []" by simp
  have h: "\<forall>p \<in> set [''a.json'', ''c.json'']. example_files p = Inr (JArr (?contents p))"
    by (simp add: example_files_def)
  have c: "[example_rust, example_moonbit, example_rerun]
             = concat (map ?contents [''a.json'', ''c.json''])"
    by simp
  note t = files_concatenated_last_record_wins [OF ne h c example_valid_ac]
  from t have "load_all example_files [''a.json'', ''c.json''] []
     = Inr [example_rust, example_moonbit, example_rerun]"
    by (rule conjunct1)
  moreover from t have "main rat_ops example_files [''a.json'', ''c.json'']
     = (expected_report rat_ops [example_rust, example_moonbit, example_rerun], Inr None)"
    by (rule conjunct2 [THEN conjunct2, THEN conjunct2])
  ultimately show ?thesis by (simp only: example_report_ac simp_thms)
qed




lemma expected_ratios_lines:
  "expected_ratios ops es =
     (case last_with es ''rust'' ''rust'' of
        None \<Rightarrow> []
      | Some ref \<Rightarrow>
          if py_gt_zero ops (ns_per_iter_of ops ref) = Inr True
          then concat (map (\<lambda>(i, t).
                 case last_with es i t of
                   None \<Rightarrow> []
                 | Some item \<Rightarrow>
                     (case py_truediv ops (ns_per_iter_of ops item) (ns_per_iter_of ops ref) of
                        Inr ratio \<Rightarrow> [ratio_line ops i t ratio]
                      | Inl e \<Rightarrow> []))
               [(''moonbit'', ''native''), (''moonbit'', ''wasm-gc'')])
          else [])"
  by (simp only: expected_ratios_def ratio_line_def)

lemma ratio_line_distinct_sym:
  "ratio_line ops ''moonbit'' ''wasm-gc'' r \<noteq> ratio_line ops ''moonbit'' ''native'' r'"
  by (simp add: ratio_line_def)

lemma ratio_quotient:
  assumes div: "ratios_ok ops es"
    and item: "last_with es i t = Some item"
    and ref: "last_with es ''rust'' ''rust'' = Some ref"
    and pos: "py_gt_zero ops (ns_per_iter_of ops ref) = Inr True"
  shows "\<exists>ratio. py_truediv ops (ns_per_iter_of ops item) (ns_per_iter_of ops ref) = Inr ratio"
proof -
  from last_with_mem [OF item] have a: "item \<in> set es" by simp
  from last_with_mem [OF ref] have b: "ref \<in> set es" by simp
  from div a b pos show ?thesis
    using not_isl_Inr unfolding ratios_ok_def by blast
qed

lemma ratio_line_due:
  assumes div: "ratios_ok ops es"
    and p: "(i, t) = (''moonbit'', ''native'') \<or> (i, t) = (''moonbit'', ''wasm-gc'')"
  shows "(\<exists>ratio. ratio_line ops i t ratio \<in> set (expected_ratios ops es))
         \<longleftrightarrow> (\<exists>item ref. last_with es i t = Some item
                \<and> last_with es ''rust'' ''rust'' = Some ref
                \<and> py_gt_zero ops (ns_per_iter_of ops ref) = Inr True)"
proof (cases "last_with es ''rust'' ''rust''")
  case None
  then show ?thesis by (simp add: expected_ratios_lines)
next
  case (Some ref)
  show ?thesis
  proof (cases "py_gt_zero ops (ns_per_iter_of ops ref) = Inr True")
    case False
    with Some show ?thesis by (simp add: expected_ratios_lines)
  next
    case True
    have q: "\<And>i t item. last_with es i t = Some item \<Longrightarrow>
               \<exists>ratio. py_truediv ops (ns_per_iter_of ops item) (ns_per_iter_of ops ref) = Inr ratio"
      using ratio_quotient [OF div _ Some True] by blast
    show ?thesis
    proof (cases "last_with es ''moonbit'' ''native''")
      case n: None
      show ?thesis
      proof (cases "last_with es ''moonbit'' ''wasm-gc''")
        case w: None
        from p show ?thesis
          by (auto simp: expected_ratios_lines Some True n w)
      next
        case w: (Some b)
        from q [OF w] obtain rb where rb:
          "py_truediv ops (ns_per_iter_of ops b) (ns_per_iter_of ops ref) = Inr rb" by blast
        from p show ?thesis
          by (auto simp: expected_ratios_lines Some True n w rb ratio_line_distinct)
      qed
    next
      case n: (Some a)
      from q [OF n] obtain ra where ra:
        "py_truediv ops (ns_per_iter_of ops a) (ns_per_iter_of ops ref) = Inr ra" by blast
      show ?thesis
      proof (cases "last_with es ''moonbit'' ''wasm-gc''")
        case w: None
        from p show ?thesis
          by (auto simp: expected_ratios_lines Some True n w ra ratio_line_distinct_sym)
      next
        case w: (Some b)
        from q [OF w] obtain rb where rb:
          "py_truediv ops (ns_per_iter_of ops b) (ns_per_iter_of ops ref) = Inr rb" by blast
        from p show ?thesis
          by (auto simp: expected_ratios_lines Some True n w ra rb ratio_line_distinct
              ratio_line_distinct_sym)
      qed
    qed
  qed
qed

lemma ratio_line_text:
  assumes div: "ratios_ok ops es"
    and p: "(i, t) = (''moonbit'', ''native'') \<or> (i, t) = (''moonbit'', ''wasm-gc'')"
    and item: "last_with es i t = Some item"
    and ref: "last_with es ''rust'' ''rust'' = Some ref"
    and pos: "py_gt_zero ops (ns_per_iter_of ops ref) = Inr True"
  shows "\<exists>ratio. py_truediv ops (ns_per_iter_of ops item) (ns_per_iter_of ops ref) = Inr ratio
           \<and> ratio_line ops i t ratio \<in> set (expected_ratios ops es)"
proof -
  from ratio_quotient [OF div item ref pos] obtain r where
    r: "py_truediv ops (ns_per_iter_of ops item) (ns_per_iter_of ops ref) = Inr r" by blast
  from p have "ratio_line ops i t r \<in> set (expected_ratios ops es)"
  proof
    assume "(i, t) = (''moonbit'', ''native'')"
    with item r show ?thesis
      by (simp add: expected_ratios_lines ref pos)
  next
    assume "(i, t) = (''moonbit'', ''wasm-gc'')"
    with item r show ?thesis
      by (simp add: expected_ratios_lines ref pos)
  qed
  with r show ?thesis by blast
qed

lemma expected_report_sections:
  "expected_report ops items =
     concat (map (\<lambda>n.
         [''== '' @ n, ''impl       target          ns/iter         secs      iters'']
         @ expected_rows ops (section_entries items n)
         @ expected_ratios ops (section_entries items n) @ [[]])
       (scenario_names items))"
proof -
  have "expected_section ops items = (\<lambda>n.
         [''== '' @ n, ''impl       target          ns/iter         secs      iters'']
         @ expected_rows ops (section_entries items n)
         @ expected_ratios ops (section_entries items n) @ [[]])"
    by (rule ext) (simp only: expected_section_def)
  then show ?thesis by (simp only: expected_report_def)
qed

lemma section_ratios_ok:
  assumes "valid_run ops items"
  shows "ratios_ok ops (section_entries items n)"
proof -
  from assms have "ratios_ok ops items" by (simp add: valid_run_def)
  moreover have "set (section_entries items n) \<subseteq> set items" by (simp add: section_entries_def)
  ultimately show ?thesis by (rule ratios_ok_subset)
qed

lemma example_load_ab:
  "load_all example_files [''a.json'', ''b.json''] [] = Inr [example_rust, example_moonbit]"
  by (simp add: load_file_def example_files_def)

text \<open>
  C1. In a run on valid records the section of a scenario is its header, the column
  header, its rows, its ratio lines and an empty line. For a pair \<^verbatim>\<open>(impl, target)\<close> of
  the fixed order other than \<^verbatim>\<open>(rust, rust)\<close>, a line
  \<^verbatim>\<open>ratio vs rust (<impl>/<target>): <ratio>x\<close> is among the ratio lines of the section if
  and only if the section has a record for the pair and a record for \<^verbatim>\<open>(rust, rust)\<close>
  and the \<^verbatim>\<open>ns_per_iter\<close> of the latter (\<^verbatim>\<open>0.0\<close> when absent) is greater than \<^verbatim>\<open>0.0\<close>;
  then the division of the \<^verbatim>\<open>ns_per_iter\<close> of the pair's record by the one of the
  reference succeeds, and the line with this quotient, in 3 decimals, is printed. The
  record a section has for a pair is the last one with that pair, and the
  \<^verbatim>\<open>ns_per_iter\<close> of a record is what \<^verbatim>\<open>item.get("ns_per_iter", 0.0)\<close> returns.
\<close>

theorem ratio_lines_in_report:
  assumes "paths \<noteq> []" and "load_all fs paths [] = Inr items" and "valid_run ops items"
  shows "main ops fs paths =
      (concat (map (\<lambda>n.
         [''== '' @ n, ''impl       target          ns/iter         secs      iters'']
         @ expected_rows ops (section_entries items n)
         @ expected_ratios ops (section_entries items n) @ [[]])
       (scenario_names items)), Inr None)
    \<and> (\<forall>n \<in> set (scenario_names items). \<forall>i t.
         (i, t) \<in> set order \<longrightarrow> (i, t) \<noteq> (''rust'', ''rust'') \<longrightarrow>
         ((\<exists>ratio. ''ratio vs rust ('' @ i @ ''/'' @ t @ ''): '' @ f_fixed ops 3 ratio @ ''x''
                     \<in> set (expected_ratios ops (section_entries items n)))
          \<longleftrightarrow> (\<exists>item ref. last_with (section_entries items n) i t = Some item
                 \<and> last_with (section_entries items n) ''rust'' ''rust'' = Some ref
                 \<and> py_gt_zero ops (ns_per_iter_of ops ref) = Inr True))
         \<and> (\<forall>item ref. last_with (section_entries items n) i t = Some item
                \<longrightarrow> last_with (section_entries items n) ''rust'' ''rust'' = Some ref
                \<longrightarrow> py_gt_zero ops (ns_per_iter_of ops ref) = Inr True
                \<longrightarrow> (\<exists>ratio. py_truediv ops (ns_per_iter_of ops item) (ns_per_iter_of ops ref)
                               = Inr ratio
                       \<and> ''ratio vs rust ('' @ i @ ''/'' @ t @ ''): '' @ f_fixed ops 3 ratio @ ''x''
                           \<in> set (expected_ratios ops (section_entries items n)))))
    \<and> (\<forall>item \<in> set items.
          get item ''ns_per_iter'' (JFloat (f_zero ops)) = Inr (ns_per_iter_of ops item))"
proof -
  have m: "main ops fs paths = (expected_report ops items, Inr None)"
    using assms by (rule main_valid)
  have g: "\<forall>item \<in> set items.
          get item ''ns_per_iter'' (JFloat (f_zero ops)) = Inr (ns_per_iter_of ops item)"
    using assms(3) by (simp add: valid_run_def record_ok_get_ns)
  have r: "\<forall>n \<in> set (scenario_names items). \<forall>i t.
         (i, t) \<in> set order \<longrightarrow> (i, t) \<noteq> (''rust'', ''rust'') \<longrightarrow>
         ((\<exists>ratio. ratio_line ops i t ratio \<in> set (expected_ratios ops (section_entries items n)))
          \<longleftrightarrow> (\<exists>item ref. last_with (section_entries items n) i t = Some item
                 \<and> last_with (section_entries items n) ''rust'' ''rust'' = Some ref
                 \<and> py_gt_zero ops (ns_per_iter_of ops ref) = Inr True))
         \<and> (\<forall>item ref. last_with (section_entries items n) i t = Some item
                \<longrightarrow> last_with (section_entries items n) ''rust'' ''rust'' = Some ref
                \<longrightarrow> py_gt_zero ops (ns_per_iter_of ops ref) = Inr True
                \<longrightarrow> (\<exists>ratio. py_truediv ops (ns_per_iter_of ops item) (ns_per_iter_of ops ref)
                               = Inr ratio
                       \<and> ratio_line ops i t ratio
                           \<in> set (expected_ratios ops (section_entries items n))))"
  proof (intro ballI allI impI)
    fix n i t
    assume it: "(i, t) \<in> set order" and nr: "(i, t) \<noteq> (''rust'', ''rust'')"
    let ?es = "section_entries items n"
    have div: "ratios_ok ops ?es" using assms(3) by (rule section_ratios_ok)
    from it nr have p: "(i, t) = (''moonbit'', ''native'') \<or> (i, t) = (''moonbit'', ''wasm-gc'')"
      unfolding order_def by (simp only: set_simps insert_iff empty_iff) blast
    have a: "(\<exists>ratio. ratio_line ops i t ratio \<in> set (expected_ratios ops ?es))
          \<longleftrightarrow> (\<exists>item ref. last_with ?es i t = Some item
                 \<and> last_with ?es ''rust'' ''rust'' = Some ref
                 \<and> py_gt_zero ops (ns_per_iter_of ops ref) = Inr True)"
      using div p by (rule ratio_line_due)
    have b: "\<forall>item ref. last_with ?es i t = Some item
                \<longrightarrow> last_with ?es ''rust'' ''rust'' = Some ref
                \<longrightarrow> py_gt_zero ops (ns_per_iter_of ops ref) = Inr True
                \<longrightarrow> (\<exists>ratio. py_truediv ops (ns_per_iter_of ops item) (ns_per_iter_of ops ref)
                               = Inr ratio
                       \<and> ratio_line ops i t ratio \<in> set (expected_ratios ops ?es))"
      using ratio_line_text [OF div p] by blast
    from a b show "((\<exists>ratio. ratio_line ops i t ratio \<in> set (expected_ratios ops ?es))
          \<longleftrightarrow> (\<exists>item ref. last_with ?es i t = Some item
                 \<and> last_with ?es ''rust'' ''rust'' = Some ref
                 \<and> py_gt_zero ops (ns_per_iter_of ops ref) = Inr True))
         \<and> (\<forall>item ref. last_with ?es i t = Some item
                \<longrightarrow> last_with ?es ''rust'' ''rust'' = Some ref
                \<longrightarrow> py_gt_zero ops (ns_per_iter_of ops ref) = Inr True
                \<longrightarrow> (\<exists>ratio. py_truediv ops (ns_per_iter_of ops item) (ns_per_iter_of ops ref)
                               = Inr ratio
                       \<and> ratio_line ops i t ratio \<in> set (expected_ratios ops ?es)))"
      by (rule conjI)
  qed
  from m have m': "main ops fs paths =
      (concat (map (\<lambda>n.
         [''== '' @ n, ''impl       target          ns/iter         secs      iters'']
         @ expected_rows ops (section_entries items n)
         @ expected_ratios ops (section_entries items n) @ [[]])
       (scenario_names items)), Inr None)"
    by (simp only: expected_report_sections)
  from m' r g show ?thesis
    unfolding ratio_line_def by (intro conjI)
qed

theorem ratio_lines_in_report_witness:
  "main rat_ops example_files [''a.json'', ''b.json''] =
     ([''== s1'',
       ''impl       target          ns/iter         secs      iters'',
       ''rust       rust             10.000     0.000010       1000'',
       ''moonbit    native           20.000     0.000020       1000'',
       ''ratio vs rust (moonbit/native): 2.000x'',
       []], Inr None)
   \<and> (\<exists>ratio. ''ratio vs rust ('' @ ''moonbit'' @ ''/'' @ ''native'' @ ''): ''
                  @ f_fixed rat_ops 3 ratio @ ''x''
                \<in> set (expected_ratios rat_ops
                         (section_entries [example_rust, example_moonbit] ''s1'')))
   \<and> \<not> (\<exists>ratio. ''ratio vs rust ('' @ ''moonbit'' @ ''/'' @ ''wasm-gc'' @ ''): ''
                  @ f_fixed rat_ops 3 ratio @ ''x''
                \<in> set (expected_ratios rat_ops
                         (section_entries [example_rust, example_moonbit] ''s1'')))"
proof -
  have ne: "[''a.json'', ''b.json''] \<noteq> []" by simp
  note t = ratio_lines_in_report [OF ne example_load_ab example_valid_a]
  from t [THEN conjunct1] have m: "main rat_ops example_files [''a.json'', ''b.json''] =
     ([''== s1'',
       ''impl       target          ns/iter         secs      iters'',
       ''rust       rust             10.000     0.000010       1000'',
       ''moonbit    native           20.000     0.000020       1000'',
       ''ratio vs rust (moonbit/native): 2.000x'',
       []], Inr None)"
    by (simp add: example_names_a example_entries_a example_rows_a example_ratios_a)
  have s: "''s1'' \<in> set (scenario_names [example_rust, example_moonbit])"
    by (simp add: example_names_a)
  note q = t [THEN conjunct2, THEN conjunct1, THEN bspec, OF s]
  have o1: "(''moonbit'', ''native'') \<in> set order" and o2: "(''moonbit'', ''wasm-gc'') \<in> set order"
    by (simp_all add: order_def)
  have d1: "(''moonbit'', ''native'') \<noteq> (''rust'', ''rust'')"
    and d2: "(''moonbit'', ''wasm-gc'') \<noteq> (''rust'', ''rust'')"
    by simp_all
  note n = q [THEN spec, THEN spec, THEN mp, THEN mp, OF o1 d1, THEN conjunct1]
  note w = q [THEN spec, THEN spec, THEN mp, THEN mp, OF o2 d2, THEN conjunct1]
  have "\<exists>item ref. last_with (section_entries [example_rust, example_moonbit] ''s1'')
                      ''moonbit'' ''native'' = Some item
          \<and> last_with (section_entries [example_rust, example_moonbit] ''s1'') ''rust'' ''rust''
              = Some ref
          \<and> py_gt_zero rat_ops (ns_per_iter_of rat_ops ref) = Inr True"
    by (simp add: example_entries_a example_last_a example_ns example_fixed)
  with n have a: "\<exists>ratio. ''ratio vs rust ('' @ ''moonbit'' @ ''/'' @ ''native'' @ ''): ''
                  @ f_fixed rat_ops 3 ratio @ ''x''
                \<in> set (expected_ratios rat_ops
                         (section_entries [example_rust, example_moonbit] ''s1''))"
    by (rule iffD2)
  have "\<not> (\<exists>item ref. last_with (section_entries [example_rust, example_moonbit] ''s1'')
                      ''moonbit'' ''wasm-gc'' = Some item
          \<and> last_with (section_entries [example_rust, example_moonbit] ''s1'') ''rust'' ''rust''
              = Some ref
          \<and> py_gt_zero rat_ops (ns_per_iter_of rat_ops ref) = Inr True)"
    by (simp add: example_entries_a example_last_a)
  with w have b: "\<not> (\<exists>ratio. ''ratio vs rust ('' @ ''moonbit'' @ ''/'' @ ''wasm-gc'' @ ''): ''
                  @ f_fixed rat_ops 3 ratio @ ''x''
                \<in> set (expected_ratios rat_ops
                         (section_entries [example_rust, example_moonbit] ''s1'')))"
    by (simp only: simp_thms)
  from m a b show ?thesis by (intro conjI)
qed

lemma row_text_shape:
  assumes "record_ok ops item"
  shows "\<exists>rest. row_text ops i t item = ljust 10 i @ rest"
proof -
  from assms obtain d where d: "item = JObj d" by (rule record_ok_object)
  from assms d obtain x y s where
    x: "to_float ops (dict_get d ''ns_per_iter'' (JFloat (f_zero ops))) = Inr x"
    and y: "to_float ops (dict_get d ''total_secs'' (JFloat (f_zero ops))) = Inr y"
    and s: "format_plain ops 10 (dict_get d ''iters'' (JInt 0)) = Inr s"
    using not_isl_Inr by (metis record_ok.simps(1))
  show ?thesis
    by (simp add: row_text_def d format_row_def format_fixed_to_float [OF x]
        format_fixed_to_float [OF y] s)
qed

lemma row_not_header:
  assumes "record_ok ops item" and "i = ''rust'' \<or> i = ''moonbit''"
  shows "take 3 (row_text ops i t item) \<noteq> ''== ''"
proof -
  from row_text_shape [OF assms(1)] obtain rest where
    r: "row_text ops i t item = ljust 10 i @ rest" by blast
  from assms(2) show ?thesis
  proof
    assume "i = ''rust''"
    with r show ?thesis by (simp add: ljust_def replicate_num)
  next
    assume "i = ''moonbit''"
    with r show ?thesis by (simp add: ljust_def replicate_num)
  qed
qed

lemma rows_not_headers:
  assumes ok: "\<forall>e \<in> set es. record_ok ops e"
  shows "filter (\<lambda>l. take 3 l = ''== '') (expected_rows ops es) = []"
proof -
  have r: "\<And>i t item. last_with es i t = Some item \<Longrightarrow> i = ''rust'' \<or> i = ''moonbit'' \<Longrightarrow>
             take 3 (row_text ops i t item) \<noteq> ''== ''"
  proof -
    fix i t item
    assume l: "last_with es i t = Some item" and i: "i = ''rust'' \<or> i = ''moonbit''"
    from last_with_mem [OF l] ok have "record_ok ops item" by blast
    then show "take 3 (row_text ops i t item) \<noteq> ''== ''" using i by (rule row_not_header)
  qed
  have a: "filter (\<lambda>l. take 3 l = ''== '')
             (case last_with es ''rust'' ''rust'' of None \<Rightarrow> []
              | Some item \<Rightarrow> [row_text ops ''rust'' ''rust'' item]) = []"
    using r [of "''rust''" "''rust''"] by (cases "last_with es ''rust'' ''rust''") simp_all
  have b: "filter (\<lambda>l. take 3 l = ''== '')
             (case last_with es ''moonbit'' ''native'' of None \<Rightarrow> []
              | Some item \<Rightarrow> [row_text ops ''moonbit'' ''native'' item]) = []"
    using r [of "''moonbit''" "''native''"] by (cases "last_with es ''moonbit'' ''native''") simp_all
  have c: "filter (\<lambda>l. take 3 l = ''== '')
             (case last_with es ''moonbit'' ''wasm-gc'' of None \<Rightarrow> []
              | Some item \<Rightarrow> [row_text ops ''moonbit'' ''wasm-gc'' item]) = []"
    using r [of "''moonbit''" "''wasm-gc''"] by (cases "last_with es ''moonbit'' ''wasm-gc''") simp_all
  show ?thesis
    by (simp only: expected_rows_def list.map prod.case concat.simps filter_append a b c append_Nil
        filter.simps)
qed

lemma ratio_line_not_header: "take 3 (ratio_line ops i t r) \<noteq> ''== ''"
  by (simp add: ratio_line_def)

lemma ratios_not_headers:
  "filter (\<lambda>l. take 3 l = ''== '') (expected_ratios ops es) = []"
proof -
  have "\<forall>l \<in> set (expected_ratios ops es). take 3 l \<noteq> ''== ''"
    unfolding expected_ratios_lines
    by (auto simp: ratio_line_not_header split: option.splits sum.splits)
  then show ?thesis by (simp only: filter_empty_conv)
qed

lemma section_header:
  assumes "valid_run ops items"
  shows "filter (\<lambda>l. take 3 l = ''== '') (expected_section ops items n) = [''== '' @ n]"
proof -
  from assms have ok: "\<forall>e \<in> set (section_entries items n). record_ok ops e"
    by (simp add: valid_run_def section_entries_def)
  have h: "take 3 (''== '' @ n) = ''== ''" by simp
  have c: "take 3 ''impl       target          ns/iter         secs      iters'' \<noteq> ''== ''"
    by simp
  have e: "take 3 ([] :: string) \<noteq> ''== ''" by simp
  have "filter (\<lambda>l. take 3 l = ''== '') (expected_section ops items n)
          = filter (\<lambda>l. take 3 l = ''== '')
              [''== '' @ n, ''impl       target          ns/iter         secs      iters'']
            @ filter (\<lambda>l. take 3 l = ''== '') (expected_rows ops (section_entries items n))
            @ filter (\<lambda>l. take 3 l = ''== '') (expected_ratios ops (section_entries items n))
            @ filter (\<lambda>l. take 3 l = ''== '') [[]]"
    by (simp only: expected_section_def filter_append)
  also have "\<dots> = filter (\<lambda>l. take 3 l = ''== '')
              [''== '' @ n, ''impl       target          ns/iter         secs      iters'']
            @ filter (\<lambda>l. take 3 l = ''== '') [[]]"
    by (simp only: rows_not_headers [OF ok] ratios_not_headers append_Nil)
  also have "\<dots> = [''== '' @ n]"
    by simp
  finally show ?thesis .
qed

lemma report_headers:
  assumes "valid_run ops items"
  shows "filter (\<lambda>l. take 3 l = ''== '') (concat (map (expected_section ops items) ns))
           = map (\<lambda>n. ''== '' @ n) ns"
  by (induction ns) (simp_all only: list.map concat.simps filter.simps filter_append
      section_header [OF assms] append_Cons append_Nil)

lemma example_mixed_load: "load_all example_mixed_files [''m.json''] [] = Inr example_mixed"
  by (simp add: load_file_def example_mixed_files_def)

lemma example_mixed_scenarios:
  "map scenario_name example_mixed = [''zeta'', [], ''alpha'', ''zeta'']"
  by (simp add: example_mixed_def)

lemma example_sorted: "sort [''zeta'', [], ''alpha''] = [[], ''alpha'', ''zeta'']"
  by code_simp

lemma example_mixed_names: "scenario_names example_mixed = [[], ''alpha'', ''zeta'']"
  by (simp add: scenario_names_def example_mixed_scenarios example_sorted)

lemma example_mixed_valid: "valid_run rat_ops example_mixed"
  apply (simp add: valid_run_def rat_ops_sane)
  apply (rule conjI)
   apply (simp add: example_mixed_def absent_or_def dict_get_def rat_ops_def)
  apply (simp add: ratios_ok_def example_mixed_def ns_per_iter_of_def dict_get_def)
  apply (simp add: rat_ops_def)
  done

lemma scenario_of_absent:
  "map_of d ''scenario'' = None \<Longrightarrow> scenario_of (JObj d) = Inr (KStr [])"
  by (simp add: scenario_of_def dict_get_def)

text \<open>
  C2. In a run on valid records, the lines of the output that begin with \<^verbatim>\<open>==\<close> and a
  space are, in this order, the headers \<^verbatim>\<open>== <scenario>\<close> of the scenario names of the
  loaded records; these names are sorted in lexicographic order, each occurs once, and
  they are exactly the names of the loaded records, the name of a record being what
  \<^verbatim>\<open>item.get("scenario", "")\<close> returns: the empty string for a record with no
  \<^verbatim>\<open>scenario\<close> field.
\<close>

theorem section_headers_are_sorted_scenarios:
  assumes "paths \<noteq> []" and "load_all fs paths [] = Inr items" and "valid_run ops items"
  shows "filter (\<lambda>l. take 3 l = ''== '') (fst (main ops fs paths))
           = map (\<lambda>n. ''== '' @ n) (scenario_names items)
    \<and> snd (main ops fs paths) = Inr None
    \<and> sorted (scenario_names items)
    \<and> distinct (scenario_names items)
    \<and> set (scenario_names items) = scenario_name ` set items
    \<and> (\<forall>item \<in> set items. scenario_of item = Inr (KStr (scenario_name item)))
    \<and> (\<forall>d. map_of d ''scenario'' = None \<longrightarrow> scenario_of (JObj d :: 'a json) = Inr (KStr []))"
proof -
  have m: "main ops fs paths = (expected_report ops items, Inr None)"
    using assms by (rule main_valid)
  have h: "filter (\<lambda>l. take 3 l = ''== '') (fst (main ops fs paths))
           = map (\<lambda>n. ''== '' @ n) (scenario_names items)"
    unfolding m fst_conv expected_report_def by (rule report_headers [OF assms(3)])
  have r: "snd (main ops fs paths) = Inr None"
    unfolding m by (rule snd_conv)
  have s: "sorted (scenario_names items)" and d: "distinct (scenario_names items)"
    and e: "set (scenario_names items) = scenario_name ` set items"
    by (simp_all add: scenario_names_def)
  have k: "\<forall>item \<in> set items. scenario_of item = Inr (KStr (scenario_name item))"
  proof
    fix item
    assume "item \<in> set items"
    with assms(3) have "record_ok ops item" by (simp add: valid_run_def)
    from record_ok_scenario [OF this] obtain d where
      "item = JObj d" and "absent_or is_str d ''scenario''" by blast
    then show "scenario_of item = Inr (KStr (scenario_name item))"
      by (simp only: scenario_of_str)
  qed
  have a: "\<forall>d. map_of d ''scenario'' = None \<longrightarrow> scenario_of (JObj d :: 'a json) = Inr (KStr [])"
    by (simp add: scenario_of_absent)
  from h r s d e k a show ?thesis by (intro conjI)
qed

theorem section_headers_are_sorted_scenarios_witness:
  "filter (\<lambda>l. take 3 l = ''== '') (fst (main rat_ops example_mixed_files [''m.json'']))
     = [''== '', ''== alpha'', ''== zeta'']
   \<and> map scenario_name example_mixed = [''zeta'', [], ''alpha'', ''zeta'']"
proof -
  have ne: "[''m.json''] \<noteq> []" by simp
  note t = section_headers_are_sorted_scenarios [OF ne example_mixed_load example_mixed_valid]
  from t [THEN conjunct1]
  have "filter (\<lambda>l. take 3 l = ''== '') (fst (main rat_ops example_mixed_files [''m.json'']))
     = [''== '', ''== alpha'', ''== zeta'']"
    by (simp add: example_mixed_names)
  then show ?thesis using example_mixed_scenarios by (rule conjI)
qed

end
